theory Spec2Isabelle
  imports Complex_Main "HOL-Library.Multiset" "HOL-Library.Sublist"
begin

section \<open>Data model (server/db/schema.ts)\<close>

text \<open>
  The enums \<open>user_role\<close> and \<open>conversation_status\<close> of the schema. Identifiers are the
  uuid columns, carried as strings as in the TypeScript; timestamps are points of a
  discrete clock.
\<close>

datatype role = Attendant | Client | Admin

datatype status = Pending | Active | Closed

type_synonym uuid = string

type_synonym timestamp = nat

text \<open>
  The columns of \<open>users\<close> that the handlers select: \<open>id\<close>, \<open>email\<close>, \<open>role\<close>, \<open>name\<close>.
  This is also the shape of \<open>req.user\<close> (AuthRequest) and of \<open>socket.user\<close>.
\<close>

record user =
  user_id :: uuid
  email :: string
  role :: role
  name :: string

record conversation =
  conv_id :: uuid
  protocol :: string
  channelId :: "uuid option"
  clientId :: uuid
  attendantId :: "uuid option"
  status :: status
  createdAt :: timestamp
  updatedAt :: timestamp

record message =
  msg_id :: uuid
  conversationId :: uuid
  senderId :: uuid
  content :: string
  msg_createdAt :: timestamp

record protocol_row =
  prot_id :: uuid
  prot_protocol :: string
  prot_conversationId :: uuid
  prot_createdAt :: timestamp

text \<open>
  The persistence store: one list of rows per table, in insertion order. Of the
  \<open>channels\<close> table only the primary keys matter here (the foreign key of
  \<open>conversations.channel_id\<close>).
\<close>

record db =
  users :: "user list"
  channels :: "uuid list"
  conversations :: "conversation list"
  messages :: "message list"
  protocols :: "protocol_row list"

section \<open>Events\<close>

text \<open>The payloads handed to \<open>triggerWebhook\<close> by the conversation and message routes.\<close>

datatype domain_event =
    ConversationCreated conversation
  | ConversationAssigned uuid uuid
  | ConversationClosed uuid
  | MessageCreated uuid uuid uuid

text \<open>
  The data objects of the outbound socket events: \<open>message:new\<close>
  \<open>{conversationId, content, sender: {id, name}, createdAt}\<close>, \<open>typing:user\<close>
  \<open>{conversationId, user: {id, name}}\<close> and \<open>typing:stop\<close> \<open>{conversationId, userId}\<close>.
\<close>

datatype payload =
    MessageData uuid string uuid string timestamp
  | TypingUserData uuid uuid string
  | TypingStopData uuid uuid

text \<open>
  A connected socket: its id, the principal the handshake middleware attached to it
  (\<open>socket.user\<close>), the rooms it is in and, in order, the events (name and data) delivered
  to it.
\<close>

record socket_conn =
  sid :: nat
  principal :: user
  rooms :: "string set"
  received :: "(string \<times> payload) list"

text \<open>
  The whole server: the store, the log of domain events handed to the webhook
  dispatcher, and the module variable \<open>io\<close> of the socket module (\<open>None\<close> until
  \<open>initializeSocket\<close> has run).
\<close>

record world =
  store :: db
  dispatched :: "domain_event list"
  io :: "socket_conn list option"

section \<open>HTTP results\<close>

text \<open>An error response: the status code and the text of the \<open>error\<close> field of its body.\<close>

datatype error = HttpError nat string

type_synonym 'a response = "error + 'a"

section \<open>Store operations\<close>

text \<open>
  \<open>const [row] = await db.select().from(conversations).where(eq(conversations.id, id))\<close>:
  the first matching row, or undefined.
\<close>

definition select_conversation :: "db \<Rightarrow> uuid \<Rightarrow> conversation option" where
  "select_conversation d i = find (\<lambda>c. conv_id c = i) (conversations d)"

text \<open>\<open>db.update(conversations).set(...).where(eq(conversations.id, id))\<close>.\<close>

definition update_conversations :: "(conversation \<Rightarrow> conversation) \<Rightarrow> uuid \<Rightarrow> db \<Rightarrow> db" where
  "update_conversations f i d =
     d\<lparr>conversations := map (\<lambda>c. if conv_id c = i then f c else c) (conversations d)\<rparr>"

text \<open>\<open>triggerWebhook(event, data)\<close>: hands the event to the dispatcher; it never throws.\<close>

definition triggerWebhook :: "domain_event \<Rightarrow> world \<Rightarrow> world" where
  "triggerWebhook e w = w\<lparr>dispatched := dispatched w @ [e]\<rparr>"

text \<open>
  Inserts. The schema declares every \<open>id\<close> a primary key, \<open>protocol\<close> unique in
  \<open>conversations\<close> and in \<open>protocols\<close>, and foreign keys from \<open>channel_id\<close>,
  \<open>client_id\<close>, \<open>attendant_id\<close>, \<open>conversation_id\<close> and \<open>sender_id\<close>. An insert that
  violates one of them is rejected by the store (the driver throws, and the handler's
  \<open>catch\<close> answers 500): \<open>None\<close>. The new row's \<open>id\<close> (defaultRandom) and its timestamps
  (defaultNow) are filled in by the caller of these functions.
\<close>

definition insert_conversation :: "conversation \<Rightarrow> db \<Rightarrow> db option" where
  "insert_conversation c d =
     (if conv_id c \<in> conv_id ` set (conversations d)
         \<or> protocol c \<in> protocol ` set (conversations d)
         \<or> (case channelId c of None \<Rightarrow> False | Some ch \<Rightarrow> ch \<notin> set (channels d))
         \<or> clientId c \<notin> user_id ` set (users d)
         \<or> (case attendantId c of None \<Rightarrow> False | Some a \<Rightarrow> a \<notin> user_id ` set (users d))
      then None
      else Some (d\<lparr>conversations := conversations d @ [c]\<rparr>))"

definition insert_protocol :: "protocol_row \<Rightarrow> db \<Rightarrow> db option" where
  "insert_protocol p d =
     (if prot_id p \<in> prot_id ` set (protocols d)
         \<or> prot_protocol p \<in> prot_protocol ` set (protocols d)
         \<or> prot_conversationId p \<notin> conv_id ` set (conversations d)
      then None
      else Some (d\<lparr>protocols := protocols d @ [p]\<rparr>))"

definition insert_message :: "message \<Rightarrow> db \<Rightarrow> db option" where
  "insert_message m d =
     (if msg_id m \<in> msg_id ` set (messages d)
         \<or> conversationId m \<notin> conv_id ` set (conversations d)
         \<or> senderId m \<notin> user_id ` set (users d)
      then None
      else Some (d\<lparr>messages := messages d @ [m]\<rparr>))"

section \<open>Protocol codes (server/utils/helpers.ts)\<close>

text \<open>
  \<open>String.prototype.charAt\<close>: the one-character string at the index, or the empty
  string when the index is out of range.
\<close>

definition charAt :: "string \<Rightarrow> int \<Rightarrow> string" where
  "charAt s i = (if 0 \<le> i \<and> i < int (length s) then [s ! nat i] else [])"

definition chars :: string where
  "chars = ''0123456789ABCDEF''"

text \<open>
  \<open>generateProtocol\<close>. The results of \<open>Math.random()\<close> are the values \<open>rnd k\<close>,
  \<open>rnd (k + 1)\<close>, ... of a random source; the body of the \<open>for\<close> loop is run for
  \<open>i = 0, ..., 12\<close>. (\<open>Math.random() * 16\<close> is exact in binary floating point, so the
  real product and its floor are what the code computes.)
\<close>

definition generateProtocol :: "(nat \<Rightarrow> real) \<Rightarrow> nat \<Rightarrow> string" where
  "generateProtocol rnd k =
     foldl (\<lambda>protocol i. protocol @ charAt chars \<lfloor>rnd (k + i) * real (length chars)\<rfloor>)
       [] [0..<13]"

text \<open>
  The uniqueness loop of \<open>POST /conversations\<close>: draw a code, and draw again while a
  conversation with that code exists. The loop has no bound, so its model is partial:
  \<open>None\<close> is the loop that never ends.
\<close>

partial_function (option) unique_protocol ::
    "conversation list \<Rightarrow> (nat \<Rightarrow> real) \<Rightarrow> nat \<Rightarrow> string option" where
  "unique_protocol convs rnd k =
     (let protocol' = generateProtocol rnd k;
          existing = filter (\<lambda>c. protocol c = protocol') convs
      in if length existing > 0 then unique_protocol convs rnd (k + 13) else Some protocol')"

section \<open>Conversation routes (server/routes/conversations.ts)\<close>

text \<open>
  \<open>POST /conversations/:id/assign\<close>. The requester is \<open>req.user\<close> as left by the
  \<open>authenticate\<close> middleware; \<open>now\<close> is the value of \<open>new Date()\<close>.
\<close>

definition assign :: "world \<Rightarrow> user \<Rightarrow> uuid \<Rightarrow> timestamp \<Rightarrow> world \<times> conversation response" where
  "assign w u i now =
     (if role u \<noteq> Attendant \<and> role u \<noteq> Admin
      then (w, Inl (HttpError 403 ''Only attendants and admins can assign conversations''))
      else case select_conversation (store w) i of
        None \<Rightarrow> (w, Inl (HttpError 404 ''Conversation not found''))
      | Some c \<Rightarrow>
          if status c \<noteq> Pending
          then (w, Inl (HttpError 400 ''Conversation is not pending''))
          else
            let upd = (\<lambda>r. r\<lparr>attendantId := Some (user_id u), status := Active, updatedAt := now\<rparr>);
                w1 = w\<lparr>store := update_conversations upd i (store w)\<rparr>;
                updated = upd c;
                w2 = triggerWebhook (ConversationAssigned (conv_id updated) (user_id u)) w1
            in (w2, Inr updated))"

text \<open>\<open>POST /conversations/:id/close\<close>.\<close>

definition close :: "world \<Rightarrow> user \<Rightarrow> uuid \<Rightarrow> timestamp \<Rightarrow> world \<times> conversation response" where
  "close w u i now =
     (case select_conversation (store w) i of
        None \<Rightarrow> (w, Inl (HttpError 404 ''Conversation not found''))
      | Some c \<Rightarrow>
          if role u = Client \<and> clientId c \<noteq> user_id u
          then (w, Inl (HttpError 403 ''Access denied''))
          else if role u = Attendant \<and> attendantId c \<noteq> Some (user_id u)
          then (w, Inl (HttpError 403 ''Access denied''))
          else
            let upd = (\<lambda>r. r\<lparr>status := Closed, updatedAt := now\<rparr>);
                w1 = w\<lparr>store := update_conversations upd i (store w)\<rparr>;
                updated = upd c;
                w2 = triggerWebhook (ConversationClosed (conv_id updated)) w1
            in (w2, Inr updated))"

text \<open>
  \<open>POST /conversations\<close>. The body carries \<open>channelId\<close> and \<open>initialMessage\<close>, both
  optional. \<open>rnd\<close> is the random source, \<open>cid\<close>, \<open>pid\<close> and \<open>mid\<close> are the ids the store
  generates for the conversation, protocol and message rows. \<open>if (initialMessage)\<close>
  holds of a string that is present and not empty. The three inserts are not wrapped in
  a transaction: a later one that fails leaves the earlier ones in place. The result is
  \<open>None\<close> when the uniqueness loop does not end.
\<close>

record create_body =
  body_channelId :: "uuid option"
  initialMessage :: "string option"

definition insert_initial_message ::
    "create_body \<Rightarrow> uuid \<Rightarrow> uuid \<Rightarrow> uuid \<Rightarrow> timestamp \<Rightarrow> db \<Rightarrow> db option" where
  "insert_initial_message body cid uid mid now d =
     (case initialMessage body of
        None \<Rightarrow> Some d
      | Some text' \<Rightarrow>
          if text' = [] then Some d
          else insert_message \<lparr>msg_id = mid, conversationId = cid, senderId = uid,
                 content = text', msg_createdAt = now\<rparr> d)"

definition create ::
    "world \<Rightarrow> user \<Rightarrow> create_body \<Rightarrow> (nat \<Rightarrow> real) \<Rightarrow> uuid \<Rightarrow> uuid \<Rightarrow> uuid \<Rightarrow> timestamp
      \<Rightarrow> (world \<times> conversation response) option" where
  "create w u body rnd cid pid mid now =
     (if role u \<noteq> Client
      then Some (w, Inl (HttpError 403 ''Only clients can create conversations''))
      else
       (case unique_protocol (conversations (store w)) rnd 0 of
          None \<Rightarrow> None
        | Some protocol' \<Rightarrow>
           (let failed = Inl (HttpError 500 ''Failed to create conversation'');
                conversation = \<lparr>conv_id = cid, protocol = protocol',
                   channelId = body_channelId body, clientId = user_id u, attendantId = None,
                   status = Pending, createdAt = now, updatedAt = now\<rparr>
            in (case insert_conversation conversation (store w) of
                  None \<Rightarrow> Some (w, failed)
                | Some d1 \<Rightarrow>
                   (case insert_protocol \<lparr>prot_id = pid, prot_protocol = protocol',
                           prot_conversationId = conv_id conversation,
                           prot_createdAt = now\<rparr> d1 of
                      None \<Rightarrow> Some (w\<lparr>store := d1\<rparr>, failed)
                    | Some d2 \<Rightarrow>
                       (case insert_initial_message body (conv_id conversation) (user_id u)
                               mid now d2 of
                          None \<Rightarrow> Some (w\<lparr>store := d2\<rparr>, failed)
                        | Some d3 \<Rightarrow>
                            Some (triggerWebhook (ConversationCreated conversation)
                                    (w\<lparr>store := d3\<rparr>),
                                  Inr conversation)))))))"

text \<open>
  \<open>GET /conversations\<close>. \<open>whereCondition\<close> is the visibility condition of the role, left
  undefined for an admin; a later \<open>.where\<close> of the query builder replaces an earlier
  one. The \<open>status\<close> query parameter is the one the handler casts to the status enum.
  The rows come back ordered by \<open>createdAt\<close> descending (the order among rows of equal
  \<open>createdAt\<close> is the store's choice; the model fixes one). Each row is then given its
  client, its attendant and its last message.
\<close>

definition whereCondition :: "user \<Rightarrow> (conversation \<Rightarrow> bool) option" where
  "whereCondition u =
     (if role u = Client then Some (\<lambda>c. clientId c = user_id u)
      else if role u = Attendant
      then Some (\<lambda>c. status c = Pending \<or> attendantId c = Some (user_id u))
      else None)"

definition list_query :: "user \<Rightarrow> status option \<Rightarrow> (conversation \<Rightarrow> bool) option" where
  "list_query u st =
     (let query0 = None;
          query1 = (case whereCondition u of Some p \<Rightarrow> Some p | None \<Rightarrow> query0)
      in case st of
           None \<Rightarrow> query1
         | Some s \<Rightarrow>
             (case whereCondition u of
                Some p \<Rightarrow> Some (\<lambda>c. p c \<and> status c = s)
              | None \<Rightarrow> Some (\<lambda>c. status c = s)))"

definition run_query :: "(conversation \<Rightarrow> bool) option \<Rightarrow> db \<Rightarrow> conversation list" where
  "run_query q d =
     rev (sort_key createdAt
       (case q of None \<Rightarrow> conversations d | Some p \<Rightarrow> filter p (conversations d)))"

record user_summary =
  summary_id :: uuid
  summary_name :: string
  summary_email :: string

record conversation_with_users =
  conv :: conversation
  client :: "user_summary option"
  attendant :: "user_summary option"
  lastMessage :: "message option"

definition select_user_summary :: "db \<Rightarrow> uuid \<Rightarrow> user_summary option" where
  "select_user_summary d i =
     map_option (\<lambda>u. \<lparr>summary_id = user_id u, summary_name = name u, summary_email = email u\<rparr>)
       (find (\<lambda>u. user_id u = i) (users d))"

definition select_last_message :: "db \<Rightarrow> uuid \<Rightarrow> message option" where
  "select_last_message d i =
     (case rev (sort_key msg_createdAt (filter (\<lambda>m. conversationId m = i) (messages d))) of
        [] \<Rightarrow> None | m # _ \<Rightarrow> Some m)"

definition list_conversations ::
    "db \<Rightarrow> user \<Rightarrow> status option \<Rightarrow> conversation_with_users list" where
  "list_conversations d u st =
     map (\<lambda>c. \<lparr>conv = c,
               client = select_user_summary d (clientId c),
               attendant = (case attendantId c of
                              None \<Rightarrow> None
                            | Some a \<Rightarrow> if a = [] then None else select_user_summary d a),
               lastMessage = select_last_message d (conv_id c)\<rparr>)
       (run_query (list_query u st) d)"

section \<open>Realtime gateway (server/socket/index.ts)\<close>

text \<open>
  \<open>io.to(room).emit(event, data)\<close> delivers the event to every connected socket that is
  in the room; \<open>socket.to(room).emit(event, data)\<close> does the same except for the sending
  socket itself.
\<close>

definition io_to_emit ::
    "string \<Rightarrow> string \<Rightarrow> payload \<Rightarrow> socket_conn list \<Rightarrow> socket_conn list" where
  "io_to_emit room event data socks =
     map (\<lambda>s. if room \<in> rooms s then s\<lparr>received := received s @ [(event, data)]\<rparr> else s) socks"

definition socket_to_emit ::
    "nat \<Rightarrow> string \<Rightarrow> string \<Rightarrow> payload \<Rightarrow> socket_conn list \<Rightarrow> socket_conn list" where
  "socket_to_emit sender room event data socks =
     map (\<lambda>s. if room \<in> rooms s \<and> sid s \<noteq> sender
               then s\<lparr>received := received s @ [(event, data)]\<rparr> else s) socks"

text \<open>The exported helpers: "Emit events from other parts of the application".\<close>

definition emitToUser :: "uuid \<Rightarrow> string \<Rightarrow> payload \<Rightarrow> world \<Rightarrow> world" where
  "emitToUser userId event data w =
     (case io w of
        None \<Rightarrow> w
      | Some socks \<Rightarrow> w\<lparr>io := Some (io_to_emit (''user:'' @ userId) event data socks)\<rparr>)"

definition emitToConversation :: "uuid \<Rightarrow> string \<Rightarrow> payload \<Rightarrow> world \<Rightarrow> world" where
  "emitToConversation conversationId' event data w =
     (case io w of
        None \<Rightarrow> w
      | Some socks \<Rightarrow>
          w\<lparr>io := Some (io_to_emit (''conversation:'' @ conversationId') event data socks)\<rparr>)"

fun role_name :: "role \<Rightarrow> string" where
  "role_name Attendant = ''attendant''"
| "role_name Client = ''client''"
| "role_name Admin = ''admin''"

definition emitToRole :: "role \<Rightarrow> string \<Rightarrow> payload \<Rightarrow> world \<Rightarrow> world" where
  "emitToRole r event data w =
     (case io w of
        None \<Rightarrow> w
      | Some socks \<Rightarrow> w\<lparr>io := Some (io_to_emit (''role:'' @ role_name r) event data socks)\<rparr>)"

text \<open>
  Tokens. \<open>jsonwebtoken\<close> is a library: \<open>jwt.sign(payload, secret, {expiresIn})\<close> makes a
  token that \<open>jwt.verify(token, secret)\<close> decodes to the payload when it is given the
  signing secret before the expiry, and rejects (throws) otherwise. A token is modelled
  by what \<open>verify\<close> reads from it.
\<close>

record claims =
  userId :: uuid
  claim_email :: "string option"
  claim_role :: "role option"
  claim_name :: "string option"

record jwt =
  jwt_payload :: claims
  jwt_secret :: string
  jwt_exp :: timestamp

definition jwt_sign :: "claims \<Rightarrow> string \<Rightarrow> nat \<Rightarrow> timestamp \<Rightarrow> jwt" where
  "jwt_sign pl secret expiresIn now =
     \<lparr>jwt_payload = pl, jwt_secret = secret, jwt_exp = now + expiresIn\<rparr>"

definition jwt_verify :: "jwt \<Rightarrow> string \<Rightarrow> timestamp \<Rightarrow> claims option" where
  "jwt_verify token secret now =
     (if jwt_secret token = secret \<and> now < jwt_exp token then Some (jwt_payload token)
      else None)"

text \<open>
  The environment variables read by the two modules: \<open>JWT_SECRET\<close>, and
  \<open>JWT_EXPIRES_IN\<close> as a duration in seconds (its default \<open>'7d'\<close> is 604800). \<open>a || b\<close> on
  strings takes \<open>b\<close> when \<open>a\<close> is undefined or empty.
\<close>

record env =
  JWT_SECRET :: "string option"
  JWT_EXPIRES_IN :: "nat option"

definition or_else :: "string option \<Rightarrow> string \<Rightarrow> string" where
  "or_else a b = (case a of None \<Rightarrow> b | Some s \<Rightarrow> if s = [] then b else s)"

text \<open>The secret of the socket module.\<close>

definition socket_JWT_SECRET :: "env \<Rightarrow> string" where
  "socket_JWT_SECRET e = or_else (JWT_SECRET e) ''your-super-secret-jwt-key''"

text \<open>
  The authentication middleware \<open>io.use\<close>: the principal attached to the socket, or the
  message of the error passed to \<open>next\<close>. The handshake token is \<open>None\<close> when it is absent.
\<close>

definition io_use :: "env \<Rightarrow> timestamp \<Rightarrow> jwt option \<Rightarrow> string + user" where
  "io_use e now token =
     (case token of
        None \<Rightarrow> Inl ''Authentication required''
      | Some t \<Rightarrow>
         (case jwt_verify t (socket_JWT_SECRET e) now of
            None \<Rightarrow> Inl ''Invalid token''
          | Some decoded \<Rightarrow>
              Inr \<lparr>user_id = userId decoded,
                   email = or_else (claim_email decoded) [],
                   role = (case claim_role decoded of None \<Rightarrow> Client | Some r \<Rightarrow> r),
                   name = or_else (claim_name decoded) []\<rparr>))"

text \<open>
  \<open>io.on('connection', ...)\<close>: the socket \<open>s\<close> with principal \<open>u\<close> joins its personal room
  and the room of its role.
\<close>

definition on_connection :: "nat \<Rightarrow> user \<Rightarrow> socket_conn list \<Rightarrow> socket_conn list" where
  "on_connection s u socks =
     socks @ [\<lparr>sid = s, principal = u,
               rooms = {''user:'' @ user_id u, ''role:'' @ role_name (role u)},
               received = []\<rparr>]"

text \<open>A handshake: middleware, then the connection handler.\<close>

definition connect :: "env \<Rightarrow> timestamp \<Rightarrow> nat \<Rightarrow> jwt option \<Rightarrow> world \<Rightarrow> world" where
  "connect e now s token w =
     (case io w of
        None \<Rightarrow> w
      | Some socks \<Rightarrow>
         (case io_use e now token of
            Inl err \<Rightarrow> w
          | Inr u \<Rightarrow> w\<lparr>io := Some (on_connection s u socks)\<rparr>))"

text \<open>
  The inbound events of a connected socket. Each handler runs for the socket \<open>s\<close> that
  received the event, with \<open>user\<close> the principal of that socket.
\<close>

datatype socket_input =
    JoinConversation uuid
  | LeaveConversation uuid
  | MessageSend uuid string
  | TypingStart uuid
  | TypingStopIn uuid
  | Disconnect

definition on_socket_event ::
    "socket_conn \<Rightarrow> socket_input \<Rightarrow> timestamp \<Rightarrow> socket_conn list \<Rightarrow> socket_conn list" where
  "on_socket_event sock ev now socks =
     (let user' = principal sock in
      (case ev of
        JoinConversation c \<Rightarrow>
          map (\<lambda>s. if sid s = sid sock then s\<lparr>rooms := insert (''conversation:'' @ c) (rooms s)\<rparr>
                    else s) socks
      | LeaveConversation c \<Rightarrow>
          map (\<lambda>s. if sid s = sid sock then s\<lparr>rooms := rooms s - {''conversation:'' @ c}\<rparr>
                    else s) socks
      | MessageSend c content' \<Rightarrow>
          socket_to_emit (sid sock) (''conversation:'' @ c) ''message:new''
            (MessageData c content' (user_id user') (name user') now) socks
      | TypingStart c \<Rightarrow>
          socket_to_emit (sid sock) (''conversation:'' @ c) ''typing:user''
            (TypingUserData c (user_id user') (name user')) socks
      | TypingStopIn c \<Rightarrow>
          socket_to_emit (sid sock) (''conversation:'' @ c) ''typing:stop''
            (TypingStopData c (user_id user')) socks
      | Disconnect \<Rightarrow> filter (\<lambda>s. sid s \<noteq> sid sock) socks))"

text \<open>
  An event arriving on the socket with id \<open>s\<close>: nothing happens unless the gateway is up
  and the socket is connected.
\<close>

definition socket_receive :: "nat \<Rightarrow> socket_input \<Rightarrow> timestamp \<Rightarrow> world \<Rightarrow> world" where
  "socket_receive s ev now w =
     (case io w of
        None \<Rightarrow> w
      | Some socks \<Rightarrow>
         (case find (\<lambda>c. sid c = s) socks of
            None \<Rightarrow> w
          | Some sock \<Rightarrow> w\<lparr>io := Some (on_socket_event sock ev now socks)\<rparr>))"

section \<open>REST authentication (server/middleware/auth.ts)\<close>

definition jwtSecret :: "env \<Rightarrow> string" where
  "jwtSecret e = or_else (JWT_SECRET e) ''development-only-secret-do-not-use-in-production''"

definition generateToken :: "env \<Rightarrow> timestamp \<Rightarrow> uuid \<Rightarrow> jwt" where
  "generateToken e now userId' =
     jwt_sign \<lparr>userId = userId', claim_email = None, claim_role = None, claim_name = None\<rparr>
       (jwtSecret e) (case JWT_EXPIRES_IN e of None \<Rightarrow> 604800 | Some n \<Rightarrow> n) now"

text \<open>
  \<open>authenticate\<close>: the bearer token of the Authorization header (\<open>None\<close> when the header
  is missing or is not a bearer header) is verified and the user row is loaded from the
  store.
\<close>

definition authenticate :: "db \<Rightarrow> env \<Rightarrow> timestamp \<Rightarrow> jwt option \<Rightarrow> user response" where
  "authenticate d e now bearer =
     (case bearer of
        None \<Rightarrow> Inl (HttpError 401 ''No token provided'')
      | Some token \<Rightarrow>
         (case jwt_verify token (jwtSecret e) now of
            None \<Rightarrow> Inl (HttpError 401 ''Invalid token'')
          | Some decoded \<Rightarrow>
             (case find (\<lambda>u. user_id u = userId decoded) (users d) of
                None \<Rightarrow> Inl (HttpError 401 ''User not found'')
              | Some user' \<Rightarrow> Inr user')))"

section \<open>Message routes (server/routes/messages.ts)\<close>

text \<open>
  \<open>POST /messages\<close>. \<open>mid\<close> is the id the store generates for the message row. \<open>!v\<close>
  holds of a string that is undefined or empty. The response is the inserted row
  together with \<open>sender: {id, name}\<close>.
\<close>

record message_body =
  body_conversationId :: "uuid option"
  body_content :: "string option"

record message_with_sender =
  msg :: message
  sender_id :: uuid
  sender_name :: string

definition falsy :: "string option \<Rightarrow> bool" where
  "falsy v = (case v of None \<Rightarrow> True | Some s \<Rightarrow> s = [])"

definition send_message ::
    "world \<Rightarrow> user \<Rightarrow> message_body \<Rightarrow> uuid \<Rightarrow> timestamp
      \<Rightarrow> world \<times> message_with_sender response" where
  "send_message w u body mid now =
     (if falsy (body_conversationId body) \<or> falsy (body_content body)
      then (w, Inl (HttpError 400 ''Conversation ID and content are required''))
      else
       (let conversationId' = the (body_conversationId body);
            content' = the (body_content body)
        in (case select_conversation (store w) conversationId' of
              None \<Rightarrow> (w, Inl (HttpError 404 ''Conversation not found''))
            | Some conversation \<Rightarrow>
                if role u = Client \<and> clientId conversation \<noteq> user_id u
                then (w, Inl (HttpError 403 ''Access denied''))
                else if role u = Client \<and> status conversation \<noteq> Active
                then (w, Inl (HttpError 400 ''Conversation is not active yet''))
                else if role u = Attendant \<and> attendantId conversation \<noteq> Some (user_id u)
                then (w, Inl (HttpError 403 ''Access denied''))
                else
                 (let message' = \<lparr>msg_id = mid, conversationId = conversationId',
                        senderId = user_id u, content = content', msg_createdAt = now\<rparr>
                  in (case insert_message message' (store w) of
                        None \<Rightarrow> (w, Inl (HttpError 500 ''Failed to send message''))
                      | Some d1 \<Rightarrow>
                         (let d2 = update_conversations (\<lambda>r. r\<lparr>updatedAt := now\<rparr>)
                                     conversationId' d1;
                              messageWithSender = \<lparr>msg = message', sender_id = user_id u,
                                 sender_name = name u\<rparr>;
                              w1 = triggerWebhook
                                     (MessageCreated (msg_id message') conversationId' (user_id u))
                                     (w\<lparr>store := d2\<rparr>)
                          in (w1, Inr messageWithSender)))))))"

section \<open>Requests and runs\<close>

text \<open>
  The requests that reach the conversation lifecycle, the message ledger and the
  gateway, each with what its handler reads from the environment (the requester left by
  \<open>authenticate\<close>, the clock, the generated ids, the random source). \<open>step\<close> is the state
  that a request leaves behind, whatever it answers, when it is handled from start to
  end with no other request in between. A \<open>create\<close> whose uniqueness loop does not end
  never writes.
\<close>

datatype request =
    Create user create_body "nat \<Rightarrow> real" uuid uuid uuid timestamp
  | Assign user uuid timestamp
  | Close user uuid timestamp
  | SendMessage user message_body uuid timestamp
  | SocketConnect env timestamp nat "jwt option"
  | SocketEvent nat socket_input timestamp

fun step :: "world \<Rightarrow> request \<Rightarrow> world" where
  "step w (Create u body rnd cid pid mid now) =
     (case create w u body rnd cid pid mid now of None \<Rightarrow> w | Some (w', _) \<Rightarrow> w')"
| "step w (Assign u i now) = fst (assign w u i now)"
| "step w (Close u i now) = fst (close w u i now)"
| "step w (SendMessage u body mid now) = fst (send_message w u body mid now)"
| "step w (SocketConnect e now s token) = connect e now s token w"
| "step w (SocketEvent s ev now) = socket_receive s ev now w"

text \<open>
  The status of conversation \<open>i\<close> as read from the store: nothing while the conversation
  does not exist.
\<close>

definition observe :: "uuid \<Rightarrow> world \<Rightarrow> status list" where
  "observe i w = (case select_conversation (store w) i of None \<Rightarrow> [] | Some c \<Rightarrow> [status c])"

text \<open>The invariant of the store: a pending conversation has no attendant.\<close>

definition pending_unassigned :: "db \<Rightarrow> bool" where
  "pending_unassigned d =
     list_all (\<lambda>c. status c = Pending \<longrightarrow> attendantId c = None) (conversations d)"

section \<open>Overlapping requests\<close>

text \<open>
  The handlers are asynchronous. A handler runs until it awaits a statement of the
  store; the store executes the statement at some later moment, other requests being
  served meanwhile, and the handler then runs on from the result to its next await. A
  task is a handler suspended at an await: it is named after the statement it waits
  for and carries the local variables the rest of the handler reads. The handlers of
  the socket events never await.
\<close>

datatype reply =
    ConversationReply "conversation response"
  | MessageReply "message_with_sender response"
  | SocketDone

datatype task =
    AssignSelect user uuid timestamp
  | AssignUpdate user uuid timestamp
  | CloseSelect user uuid timestamp
  | CloseUpdate user uuid timestamp
  | MessageSelect user uuid string uuid timestamp
  | MessageInsert user uuid string uuid timestamp
  | MessageUpdate user message timestamp
  | CreateSelect user create_body "nat \<Rightarrow> real" nat uuid uuid uuid timestamp
  | CreateInsert user create_body string uuid uuid uuid timestamp
  | CreateProtocol user create_body conversation uuid uuid timestamp
  | CreateMessage user string conversation uuid timestamp
  | Webhook domain_event reply

datatype outcome = Await task | Respond reply

text \<open>
  The arrival of a request: the handler up to its first await. A socket handler runs to
  its end.
\<close>

fun start :: "world \<Rightarrow> request \<Rightarrow> world \<times> outcome" where
  "start w (Create u body rnd cid pid mid now) =
     (if role u \<noteq> Client
      then (w, Respond (ConversationReply
                 (Inl (HttpError 403 ''Only clients can create conversations''))))
      else (w, Await (CreateSelect u body rnd 0 cid pid mid now)))"
| "start w (Assign u i now) =
     (if role u \<noteq> Attendant \<and> role u \<noteq> Admin
      then (w, Respond (ConversationReply
                 (Inl (HttpError 403 ''Only attendants and admins can assign conversations''))))
      else (w, Await (AssignSelect u i now)))"
| "start w (Close u i now) = (w, Await (CloseSelect u i now))"
| "start w (SendMessage u body mid now) =
     (if falsy (body_conversationId body) \<or> falsy (body_content body)
      then (w, Respond (MessageReply
                 (Inl (HttpError 400 ''Conversation ID and content are required''))))
      else (w, Await (MessageSelect u (the (body_conversationId body))
                        (the (body_content body)) mid now)))"
| "start w (SocketConnect e now s token) = (connect e now s token w, Respond SocketDone)"
| "start w (SocketEvent s ev now) = (socket_receive s ev now w, Respond SocketDone)"

text \<open>
  The store executes the awaited statement on the state it has at that moment, and the
  handler runs on to its next await or to its answer. \<open>.returning()\<close> gives the rows as
  the update left them; when it gives none, \<open>updated\<close> is undefined, \<open>updated.id\<close> throws
  and the handler's \<open>catch\<close> answers 500.
\<close>

fun resume :: "world \<Rightarrow> task \<Rightarrow> world \<times> outcome" where
  "resume w (AssignSelect u i now) =
     (case select_conversation (store w) i of
        None \<Rightarrow> (w, Respond (ConversationReply (Inl (HttpError 404 ''Conversation not found''))))
      | Some c \<Rightarrow>
          if status c \<noteq> Pending
          then (w, Respond (ConversationReply
                      (Inl (HttpError 400 ''Conversation is not pending''))))
          else (w, Await (AssignUpdate u i now)))"
| "resume w (AssignUpdate u i now) =
     (let d = update_conversations
                (\<lambda>r. r\<lparr>attendantId := Some (user_id u), status := Active, updatedAt := now\<rparr>)
                i (store w)
      in (case select_conversation d i of
            None \<Rightarrow> (w\<lparr>store := d\<rparr>,
                     Respond (ConversationReply
                       (Inl (HttpError 500 ''Failed to assign conversation''))))
          | Some updated \<Rightarrow>
              (w\<lparr>store := d\<rparr>,
               Await (Webhook (ConversationAssigned (conv_id updated) (user_id u))
                        (ConversationReply (Inr updated))))))"
| "resume w (CloseSelect u i now) =
     (case select_conversation (store w) i of
        None \<Rightarrow> (w, Respond (ConversationReply (Inl (HttpError 404 ''Conversation not found''))))
      | Some c \<Rightarrow>
          if role u = Client \<and> clientId c \<noteq> user_id u
          then (w, Respond (ConversationReply (Inl (HttpError 403 ''Access denied''))))
          else if role u = Attendant \<and> attendantId c \<noteq> Some (user_id u)
          then (w, Respond (ConversationReply (Inl (HttpError 403 ''Access denied''))))
          else (w, Await (CloseUpdate u i now)))"
| "resume w (CloseUpdate u i now) =
     (let d = update_conversations (\<lambda>r. r\<lparr>status := Closed, updatedAt := now\<rparr>) i (store w)
      in (case select_conversation d i of
            None \<Rightarrow> (w\<lparr>store := d\<rparr>,
                     Respond (ConversationReply
                       (Inl (HttpError 500 ''Failed to close conversation''))))
          | Some updated \<Rightarrow>
              (w\<lparr>store := d\<rparr>,
               Await (Webhook (ConversationClosed (conv_id updated))
                        (ConversationReply (Inr updated))))))"
| "resume w (MessageSelect u conversationId' content' mid now) =
     (case select_conversation (store w) conversationId' of
        None \<Rightarrow> (w, Respond (MessageReply (Inl (HttpError 404 ''Conversation not found''))))
      | Some conversation \<Rightarrow>
          if role u = Client \<and> clientId conversation \<noteq> user_id u
          then (w, Respond (MessageReply (Inl (HttpError 403 ''Access denied''))))
          else if role u = Client \<and> status conversation \<noteq> Active
          then (w, Respond (MessageReply
                      (Inl (HttpError 400 ''Conversation is not active yet''))))
          else if role u = Attendant \<and> attendantId conversation \<noteq> Some (user_id u)
          then (w, Respond (MessageReply (Inl (HttpError 403 ''Access denied''))))
          else (w, Await (MessageInsert u conversationId' content' mid now)))"
| "resume w (MessageInsert u conversationId' content' mid now) =
     (let message' = \<lparr>msg_id = mid, conversationId = conversationId', senderId = user_id u,
                       content = content', msg_createdAt = now\<rparr>
      in (case insert_message message' (store w) of
            None \<Rightarrow> (w, Respond (MessageReply (Inl (HttpError 500 ''Failed to send message''))))
          | Some d1 \<Rightarrow> (w\<lparr>store := d1\<rparr>, Await (MessageUpdate u message' now))))"
| "resume w (MessageUpdate u message' now) =
     (w\<lparr>store := update_conversations (\<lambda>r. r\<lparr>updatedAt := now\<rparr>) (conversationId message')
                    (store w)\<rparr>,
      Await (Webhook (MessageCreated (msg_id message') (conversationId message') (user_id u))
               (MessageReply (Inr \<lparr>msg = message', sender_id = user_id u,
                                    sender_name = name u\<rparr>))))"
| "resume w (CreateSelect u body rnd k cid pid mid now) =
     (let protocol' = generateProtocol rnd k;
          existing = filter (\<lambda>c. protocol c = protocol') (conversations (store w))
      in if length existing > 0
         then (w, Await (CreateSelect u body rnd (k + 13) cid pid mid now))
         else (w, Await (CreateInsert u body protocol' cid pid mid now)))"
| "resume w (CreateInsert u body protocol' cid pid mid now) =
     (let conversation = \<lparr>conv_id = cid, protocol = protocol',
             channelId = body_channelId body, clientId = user_id u, attendantId = None,
             status = Pending, createdAt = now, updatedAt = now\<rparr>
      in (case insert_conversation conversation (store w) of
            None \<Rightarrow> (w, Respond (ConversationReply
                              (Inl (HttpError 500 ''Failed to create conversation''))))
          | Some d1 \<Rightarrow> (w\<lparr>store := d1\<rparr>, Await (CreateProtocol u body conversation pid mid now))))"
| "resume w (CreateProtocol u body conversation pid mid now) =
     (case insert_protocol \<lparr>prot_id = pid, prot_protocol = protocol conversation,
             prot_conversationId = conv_id conversation, prot_createdAt = now\<rparr> (store w) of
        None \<Rightarrow> (w, Respond (ConversationReply
                          (Inl (HttpError 500 ''Failed to create conversation''))))
      | Some d2 \<Rightarrow>
          (w\<lparr>store := d2\<rparr>,
           (case initialMessage body of
              None \<Rightarrow> Await (Webhook (ConversationCreated conversation)
                                (ConversationReply (Inr conversation)))
            | Some text' \<Rightarrow>
                if text' = []
                then Await (Webhook (ConversationCreated conversation)
                              (ConversationReply (Inr conversation)))
                else Await (CreateMessage u text' conversation mid now))))"
| "resume w (CreateMessage u text' conversation mid now) =
     (case insert_message \<lparr>msg_id = mid, conversationId = conv_id conversation,
             senderId = user_id u, content = text', msg_createdAt = now\<rparr> (store w) of
        None \<Rightarrow> (w, Respond (ConversationReply
                          (Inl (HttpError 500 ''Failed to create conversation''))))
      | Some d3 \<Rightarrow>
          (w\<lparr>store := d3\<rparr>,
           Await (Webhook (ConversationCreated conversation)
                    (ConversationReply (Inr conversation)))))"
| "resume w (Webhook e r) = (triggerWebhook e w, Respond r)"

text \<open>
  The server with its requests in flight, each under the number of its connection, and
  the answers sent so far. An event is the arrival of a request or the completion of
  the statement that the request with the given number awaits.
\<close>

record system =
  server :: world
  inflight :: "nat \<rightharpoonup> task"
  replies :: "(nat \<times> reply) list"

datatype event = Arrive nat request | Resume nat

definition settle :: "nat \<Rightarrow> world \<times> outcome \<Rightarrow> system \<Rightarrow> system" where
  "settle n res s =
     (case snd res of
        Await t \<Rightarrow> s\<lparr>server := fst res, inflight := (inflight s)(n \<mapsto> t)\<rparr>
      | Respond r \<Rightarrow> s\<lparr>server := fst res, inflight := (inflight s)(n := None),
                       replies := replies s @ [(n, r)]\<rparr>)"

fun deliver :: "system \<Rightarrow> event \<Rightarrow> system" where
  "deliver s (Arrive n r) =
     (case inflight s n of None \<Rightarrow> settle n (start (server s) r) s | Some t \<Rightarrow> s)"
| "deliver s (Resume n) =
     (case inflight s n of None \<Rightarrow> s | Some t \<Rightarrow> settle n (resume (server s) t) s)"

definition idle :: "world \<Rightarrow> system" where
  "idle w = \<lparr>server = w, inflight = Map.empty, replies = []\<rparr>"

text \<open>
  The status of conversation \<open>i\<close> as read from the store before the first event and
  after each event of a run, and the sequence of its transitions: the history with
  repetitions of a status dropped.
\<close>

fun status_history :: "uuid \<Rightarrow> system \<Rightarrow> event list \<Rightarrow> status list" where
  "status_history i s [] = observe i (server s)"
| "status_history i s (e # es) = observe i (server s) @ status_history i (deliver s e) es"

definition transitions :: "uuid \<Rightarrow> system \<Rightarrow> event list \<Rightarrow> status list" where
  "transitions i s es = remdups_adj (status_history i s es)"

text \<open>
  The event is the update of an assign of conversation \<open>i\<close>. A run in which every such
  update finds the conversation still pending, as the handler's check before it did. A
  run in which a request arrives only when none is in flight.
\<close>

definition assign_update_of :: "uuid \<Rightarrow> system \<Rightarrow> event \<Rightarrow> bool" where
  "assign_update_of i s e =
     (case e of
        Arrive n r \<Rightarrow> False
      | Resume n \<Rightarrow>
         (case inflight s n of
            Some (AssignUpdate u j now) \<Rightarrow> j = i
          | _ \<Rightarrow> False))"

fun assign_finds_pending :: "uuid \<Rightarrow> system \<Rightarrow> event list \<Rightarrow> bool" where
  "assign_finds_pending i s [] = True"
| "assign_finds_pending i s (e # es) =
     ((assign_update_of i s e \<longrightarrow> observe i (server s) = [Pending])
      \<and> assign_finds_pending i (deliver s e) es)"

fun one_at_a_time :: "system \<Rightarrow> event list \<Rightarrow> bool" where
  "one_at_a_time s [] = True"
| "one_at_a_time s (e # es) =
     ((case e of Arrive n r \<Rightarrow> dom (inflight s) = {} | Resume n \<Rightarrow> True)
      \<and> one_at_a_time (deliver s e) es)"

text \<open>A request handled without interruption, with enough steps to reach its answer.\<close>

fun finish :: "nat \<Rightarrow> world \<times> outcome \<Rightarrow> (world \<times> reply) option" where
  "finish fuel (w, Respond r) = Some (w, r)"
| "finish 0 (w, Await t) = None"
| "finish (Suc fuel) (w, Await t) = finish fuel (resume w t)"

section \<open>A small deployment\<close>

text \<open>Three users, one per role, a second client, and stores used as concrete inputs.\<close>

definition alice :: user where
  "alice = \<lparr>user_id = ''u-alice'', email = ''alice@example.org'', role = Client, name = ''Alice''\<rparr>"

definition bob :: user where
  "bob = \<lparr>user_id = ''u-bob'', email = ''bob@example.org'', role = Attendant, name = ''Bob''\<rparr>"

definition carol :: user where
  "carol = \<lparr>user_id = ''u-carol'', email = ''carol@example.org'', role = Admin, name = ''Carol''\<rparr>"

definition dan :: user where
  "dan = \<lparr>user_id = ''u-dan'', email = ''dan@example.org'', role = Client, name = ''Dan''\<rparr>"

definition empty_db :: db where
  "empty_db = \<lparr>users = [alice, bob, carol, dan], channels = [], conversations = [],
                messages = [], protocols = []\<rparr>"

definition empty_world :: world where
  "empty_world = \<lparr>store = empty_db, dispatched = [], io = Some []\<rparr>"

text \<open>Alice's conversation \<open>c1\<close>, as \<open>create\<close> leaves it and after Bob has taken it.\<close>

definition c1_pending :: conversation where
  "c1_pending = \<lparr>conv_id = ''c1'', protocol = ''0000000000000'', channelId = None,
                  clientId = ''u-alice'', attendantId = None, status = Pending,
                  createdAt = 1, updatedAt = 1\<rparr>"

definition c1_active :: conversation where
  "c1_active = c1_pending\<lparr>attendantId := Some ''u-bob'', status := Active, updatedAt := 2\<rparr>"

definition c1_closed :: conversation where
  "c1_closed = c1_active\<lparr>status := Closed, updatedAt := 3\<rparr>"

definition db_with :: "conversation list \<Rightarrow> db" where
  "db_with cs = empty_db\<lparr>conversations := cs\<rparr>"

text \<open>
  Bob's socket \<open>7\<close> and Alice's socket \<open>8\<close> after both have joined the room of \<open>c1\<close>,
  and the server with the active conversation and the two sockets connected.
\<close>

definition bob_socket :: socket_conn where
  "bob_socket = \<lparr>sid = 7, principal = bob,
                  rooms = {''user:u-bob'', ''role:attendant'', ''conversation:c1''},
                  received = []\<rparr>"

definition alice_socket :: socket_conn where
  "alice_socket = \<lparr>sid = 8, principal = alice,
                    rooms = {''user:u-alice'', ''role:client'', ''conversation:c1''},
                    received = []\<rparr>"

definition chat_world :: world where
  "chat_world = \<lparr>store = db_with [c1_active], dispatched = [],
                  io = Some [bob_socket, alice_socket]\<rparr>"

definition hello :: message_body where
  "hello = \<lparr>body_conversationId = Some ''c1'', body_content = Some ''hello''\<rparr>"

text \<open>A random source that always returns 0, and one that runs through sixteenths.\<close>

definition zeros :: "nat \<Rightarrow> real" where
  "zeros k = 0"

definition sixteenths :: "nat \<Rightarrow> real" where
  "sixteenths k = real (k mod 16) / 16"

text \<open>Dan's pending conversation \<open>c2\<close>, opened after \<open>c1\<close>.\<close>

definition c2_pending :: conversation where
  "c2_pending = \<lparr>conv_id = ''c2'', protocol = ''0123456789ABC'', channelId = None,
                  clientId = ''u-dan'', attendantId = None, status = Pending,
                  createdAt = 4, updatedAt = 4\<rparr>"

text \<open>An environment with the secret configured.\<close>

definition prod_env :: env where
  "prod_env = \<lparr>JWT_SECRET = Some ''s3cret'', JWT_EXPIRES_IN = None\<rparr>"

text \<open>A request body with a first message, and the conversation Alice gets for it.\<close>

definition greeting :: create_body where
  "greeting = \<lparr>body_channelId = None, initialMessage = Some ''hi''\<rparr>"

definition c3_created :: conversation where
  "c3_created = \<lparr>conv_id = ''c3'', protocol = ''DEF0123456789'', channelId = None,
                  clientId = ''u-alice'', attendantId = None, status = Pending,
                  createdAt = 20, updatedAt = 20\<rparr>"

text \<open>
  Runs on the empty deployment. Alice opens \<open>c1\<close> with a first message, each statement
  of the handler completing in turn. Then: Alice closes it before anyone takes it; or
  Bob's assign has passed its check when Alice's close is handled, and his update lands
  last; or Bob takes it, Alice writes and Bob closes, one request after the other.
\<close>

definition open_c1 :: "event list" where
  "open_c1 = [Arrive 1 (Create alice greeting zeros ''c1'' ''p1'' ''m0'' 1),
              Resume 1, Resume 1, Resume 1, Resume 1, Resume 1]"

definition owner_closes :: "event list" where
  "owner_closes = open_c1 @ [Arrive 2 (Close alice ''c1'' 2), Resume 2, Resume 2, Resume 2]"

definition close_overtakes_assign :: "event list" where
  "close_overtakes_assign = open_c1 @
     [Arrive 2 (Assign bob ''c1'' 2), Resume 2,
      Arrive 3 (Close alice ''c1'' 3), Resume 3, Resume 3, Resume 3,
      Resume 2, Resume 2]"

definition full_life :: "event list" where
  "full_life = open_c1 @
     [Arrive 2 (Assign bob ''c1'' 2), Resume 2, Resume 2, Resume 2,
      Arrive 3 (SendMessage alice hello ''m1'' 3), Resume 3, Resume 3, Resume 3, Resume 3,
      Arrive 4 (Close bob ''c1'' 4), Resume 4, Resume 4, Resume 4]"

section \<open>Properties\<close>

lemmas deployment_defs = alice_def bob_def carol_def dan_def empty_db_def empty_world_def
  c1_pending_def c1_active_def c1_closed_def db_with_def bob_socket_def alice_socket_def
  chat_world_def hello_def

lemma select_conversation_id:
  "select_conversation d i = Some c \<Longrightarrow> conv_id c = i \<and> c \<in> set (conversations d)"
  by (auto simp: select_conversation_def find_Some_iff)

lemma find_map_id:
  assumes "\<And>c. conv_id (f c) = conv_id c"
  shows "find (\<lambda>c. conv_id c = i) (map (\<lambda>c. if conv_id c = j then f c else c) xs) =
         map_option (\<lambda>c. if conv_id c = j then f c else c) (find (\<lambda>c. conv_id c = i) xs)"
  using assms by (induction xs) auto

lemma find_snoc:
  "find P (xs @ [c]) = (case find P xs of Some x \<Rightarrow> Some x | None \<Rightarrow> if P c then Some c else None)"
  by (induction xs) auto

lemma select_update:
  assumes "select_conversation d i = Some c" and "\<And>r. conv_id (f r) = conv_id r"
  shows "select_conversation (update_conversations f i d) i = Some (f c)"
proof -
  have "conv_id c = i" using assms(1) by (simp add: select_conversation_id)
  then show ?thesis
    using assms by (simp add: select_conversation_def update_conversations_def find_map_id)
qed

subsection \<open>Assignment\<close>

text \<open>
  C3. Assigning a conversation whose status is not \<open>pending\<close>, as an attendant or an
  admin, answers 400 "Conversation is not pending" and leaves the whole server state,
  hence the conversation's attendantId and status, as it was.
\<close>

theorem assign_non_pending_rejected:
  assumes "role u = Attendant \<or> role u = Admin"
    and "select_conversation (store w) i = Some c"
    and "status c \<noteq> Pending"
  shows "assign w u i now = (w, Inl (HttpError 400 ''Conversation is not pending''))"
  using assms by (auto simp: assign_def)

theorem assign_non_pending_rejected_witness:
  "(role bob = Attendant \<or> role bob = Admin)
   \<and> select_conversation (store chat_world) ''c1'' = Some c1_active
   \<and> status c1_active \<noteq> Pending
   \<and> assign chat_world bob ''c1'' 5 =
       (chat_world, Inl (HttpError 400 ''Conversation is not pending''))"
proof -
  have a: "role bob = Attendant \<or> role bob = Admin" by (simp add: bob_def)
  have b: "select_conversation (store chat_world) ''c1'' = Some c1_active"
    by (simp add: select_conversation_def deployment_defs)
  have c: "status c1_active \<noteq> Pending" by (simp add: deployment_defs)
  show ?thesis using a b c assign_non_pending_rejected [OF a b c, of 5] by simp
qed

subsection \<open>Closing\<close>

text \<open>
  C7. On an existing conversation, a client's close succeeds exactly when the client
  owns it, an attendant's exactly when the attendant is the assigned one, and an
  admin's always; a close that does not succeed answers 403 and changes nothing. A
  close that succeeds sets status closed and updatedAt \<open>now\<close> on the conversation, which
  is then read back closed from the store, emits \<open>conversation.closed\<close> and answers with
  the updated row. The status is not looked at: on a conversation that is already
  closed the same update runs again and the answer is the row with its new updatedAt,
  not an error.
\<close>

theorem close_authorization:
  assumes "select_conversation (store w) i = Some c"
  shows "(role u = Client \<longrightarrow>
            ((\<exists>c'. snd (close w u i now) = Inr c') \<longleftrightarrow> clientId c = user_id u))
       \<and> (role u = Attendant \<longrightarrow>
            ((\<exists>c'. snd (close w u i now) = Inr c') \<longleftrightarrow> attendantId c = Some (user_id u)))
       \<and> (role u = Admin \<longrightarrow> (\<exists>c'. snd (close w u i now) = Inr c'))
       \<and> ((\<forall>c'. snd (close w u i now) \<noteq> Inr c') \<longrightarrow>
            close w u i now = (w, Inl (HttpError 403 ''Access denied'')))
       \<and> ((\<exists>c'. snd (close w u i now) = Inr c') \<longrightarrow>
            close w u i now =
              (w\<lparr>store := update_conversations (\<lambda>r. r\<lparr>status := Closed, updatedAt := now\<rparr>) i
                            (store w),
                 dispatched := dispatched w @ [ConversationClosed i]\<rparr>,
               Inr (c\<lparr>status := Closed, updatedAt := now\<rparr>))
          \<and> select_conversation (store (fst (close w u i now))) i =
              Some (c\<lparr>status := Closed, updatedAt := now\<rparr>))
       \<and> (status c = Closed \<and> (\<exists>c'. snd (close w u i now) = Inr c') \<longrightarrow>
            snd (close w u i now) = Inr (c\<lparr>updatedAt := now\<rparr>))"
proof -
  have i: "conv_id c = i" using assms by (simp add: select_conversation_id)
  have s: "select_conversation
      (update_conversations (\<lambda>r. r\<lparr>status := Closed, updatedAt := now\<rparr>) i (store w)) i =
      Some (c\<lparr>status := Closed, updatedAt := now\<rparr>)"
    using assms by (rule select_update) simp
  show ?thesis
    using assms i s by (cases "role u") (auto simp: close_def Let_def triggerWebhook_def)
qed

theorem close_authorization_witness:
  "close (chat_world\<lparr>store := db_with [c1_closed]\<rparr>) carol ''c1'' 9 =
       (chat_world\<lparr>store := db_with [c1_closed\<lparr>updatedAt := 9\<rparr>],
                   dispatched := [ConversationClosed ''c1'']\<rparr>,
        Inr (c1_closed\<lparr>updatedAt := 9\<rparr>))
   \<and> close (chat_world\<lparr>store := db_with [c1_closed]\<rparr>) dan ''c1'' 9 =
       (chat_world\<lparr>store := db_with [c1_closed]\<rparr>, Inl (HttpError 403 ''Access denied''))
   \<and> close chat_world bob ''c1'' 9 =
       (chat_world\<lparr>store := db_with [c1_active\<lparr>status := Closed, updatedAt := 9\<rparr>],
                   dispatched := [ConversationClosed ''c1'']\<rparr>,
        Inr (c1_active\<lparr>status := Closed, updatedAt := 9\<rparr>))
   \<and> select_conversation (store (fst (close chat_world bob ''c1'' 9))) ''c1'' =
       Some (c1_active\<lparr>status := Closed, updatedAt := 9\<rparr>)
   \<and> close (chat_world\<lparr>store := db_with [c1_pending]\<rparr>) alice ''c1'' 9 =
       (chat_world\<lparr>store := db_with [c1_pending\<lparr>status := Closed, updatedAt := 9\<rparr>],
                   dispatched := [ConversationClosed ''c1'']\<rparr>,
        Inr (c1_pending\<lparr>status := Closed, updatedAt := 9\<rparr>))
   \<and> close (chat_world\<lparr>store := db_with [c1_pending]\<rparr>) bob ''c1'' 9 =
       (chat_world\<lparr>store := db_with [c1_pending]\<rparr>, Inl (HttpError 403 ''Access denied''))"
proof -
  let ?closed = "chat_world\<lparr>store := db_with [c1_closed]\<rparr>"
  let ?pending = "chat_world\<lparr>store := db_with [c1_pending]\<rparr>"
  have s: "select_conversation (store ?closed) ''c1'' = Some c1_closed"
    "select_conversation (store chat_world) ''c1'' = Some c1_active"
    "select_conversation (store ?pending) ''c1'' = Some c1_pending"
    by (simp_all add: select_conversation_def deployment_defs)
  have r: "role carol = Admin" "status c1_closed = Closed" "role dan = Client"
    "clientId c1_closed \<noteq> user_id dan" "role bob = Attendant"
    "attendantId c1_active = Some (user_id bob)" "role alice = Client"
    "clientId c1_pending = user_id alice" "attendantId c1_pending \<noteq> Some (user_id bob)"
    by (simp_all add: deployment_defs)
  have u: "update_conversations (\<lambda>r. r\<lparr>status := Closed, updatedAt := 9\<rparr>) ''c1''
             (db_with [c]) = db_with [c\<lparr>status := Closed, updatedAt := 9\<rparr>]"
    if "conv_id c = ''c1''" for c
    using that by (simp add: update_conversations_def deployment_defs)
  have i: "conv_id c1_closed = ''c1''" "conv_id c1_active = ''c1''" "conv_id c1_pending = ''c1''"
    by (simp_all add: deployment_defs)
  have d: "dispatched chat_world = []" "store chat_world = db_with [c1_active]"
    by (simp_all add: chat_world_def)
  have e: "c1_closed\<lparr>status := Closed, updatedAt := 9\<rparr> = c1_closed\<lparr>updatedAt := 9\<rparr>"
    by (simp add: deployment_defs)
  note T = close_authorization
  have c1: "\<exists>c'. snd (close ?closed carol ''c1'' 9) = Inr c'"
    using T [OF s(1), of carol 9] r by blast
  have "close ?closed carol ''c1'' 9 =
      (?closed\<lparr>store := update_conversations (\<lambda>r. r\<lparr>status := Closed, updatedAt := 9\<rparr>) ''c1''
                            (store ?closed),
                 dispatched := dispatched ?closed @ [ConversationClosed ''c1'']\<rparr>,
       Inr (c1_closed\<lparr>status := Closed, updatedAt := 9\<rparr>))"
    using T [OF s(1), of carol 9] c1 by blast
  then have 1: "close ?closed carol ''c1'' 9 =
       (chat_world\<lparr>store := db_with [c1_closed\<lparr>updatedAt := 9\<rparr>],
                   dispatched := [ConversationClosed ''c1'']\<rparr>,
        Inr (c1_closed\<lparr>updatedAt := 9\<rparr>))"
    using u [OF i(1)] d e by simp
  have "\<forall>c'. snd (close ?closed dan ''c1'' 9) \<noteq> Inr c'"
    using T [OF s(1), of dan 9] r by blast
  then have 2: "close ?closed dan ''c1'' 9 = (?closed, Inl (HttpError 403 ''Access denied''))"
    using T [OF s(1), of dan 9] by blast
  have c3: "\<exists>c'. snd (close chat_world bob ''c1'' 9) = Inr c'"
    using T [OF s(2), of bob 9] r by blast
  have "close chat_world bob ''c1'' 9 =
      (chat_world\<lparr>store := update_conversations (\<lambda>r. r\<lparr>status := Closed, updatedAt := 9\<rparr>) ''c1''
                            (store chat_world),
                 dispatched := dispatched chat_world @ [ConversationClosed ''c1'']\<rparr>,
       Inr (c1_active\<lparr>status := Closed, updatedAt := 9\<rparr>))"
    and 4: "select_conversation (store (fst (close chat_world bob ''c1'' 9))) ''c1'' =
       Some (c1_active\<lparr>status := Closed, updatedAt := 9\<rparr>)"
    using T [OF s(2), of bob 9] c3 by blast+
  then have 3: "close chat_world bob ''c1'' 9 =
       (chat_world\<lparr>store := db_with [c1_active\<lparr>status := Closed, updatedAt := 9\<rparr>],
                   dispatched := [ConversationClosed ''c1'']\<rparr>,
        Inr (c1_active\<lparr>status := Closed, updatedAt := 9\<rparr>))"
    using u [OF i(2)] d by simp
  have c5: "\<exists>c'. snd (close ?pending alice ''c1'' 9) = Inr c'"
    using T [OF s(3), of alice 9] r by blast
  have "close ?pending alice ''c1'' 9 =
      (?pending\<lparr>store := update_conversations (\<lambda>r. r\<lparr>status := Closed, updatedAt := 9\<rparr>) ''c1''
                            (store ?pending),
                 dispatched := dispatched ?pending @ [ConversationClosed ''c1'']\<rparr>,
       Inr (c1_pending\<lparr>status := Closed, updatedAt := 9\<rparr>))"
    using T [OF s(3), of alice 9] c5 by blast
  then have 5: "close ?pending alice ''c1'' 9 =
       (chat_world\<lparr>store := db_with [c1_pending\<lparr>status := Closed, updatedAt := 9\<rparr>],
                   dispatched := [ConversationClosed ''c1'']\<rparr>,
        Inr (c1_pending\<lparr>status := Closed, updatedAt := 9\<rparr>))"
    using u [OF i(3)] d by simp
  have "\<forall>c'. snd (close ?pending bob ''c1'' 9) \<noteq> Inr c'"
    using T [OF s(3), of bob 9] r by blast
  then have 6: "close ?pending bob ''c1'' 9 = (?pending, Inl (HttpError 403 ''Access denied''))"
    using T [OF s(3), of bob 9] by blast
  show ?thesis using 1 2 3 4 5 6 by simp
qed

subsection \<open>Appending to the message ledger\<close>

lemma insert_message_Some:
  "insert_message m d = Some d' \<longleftrightarrow>
     msg_id m \<notin> msg_id ` set (messages d) \<and> conversationId m \<in> conv_id ` set (conversations d)
     \<and> senderId m \<in> user_id ` set (users d) \<and> d' = d\<lparr>messages := messages d @ [m]\<rparr>"
  by (auto simp: insert_message_def)

text \<open>
  C6. An append that succeeds is into an existing conversation and, for a client, into
  the client's own conversation while it is active; for an attendant, into a
  conversation the attendant is assigned to. With a well-formed body and an existing
  conversation: a client who is not the owner gets 403 and a client whose own
  conversation is not active gets 400, both without any write; an attendant who is not
  the assigned one gets 403; and when the store accepts the row (fresh id, known
  sender), the owner of an active conversation, the assigned attendant whatever the
  status, and any admin succeed, the message being added to the ledger.
\<close>

theorem append_authorization:
  "(\<forall>m. snd (send_message w u body mid now) = Inr m \<longrightarrow>
      (\<exists>i c. body_conversationId body = Some i \<and> select_conversation (store w) i = Some c
         \<and> (role u = Client \<longrightarrow> clientId c = user_id u \<and> status c = Active)
         \<and> (role u = Attendant \<longrightarrow> attendantId c = Some (user_id u))))
   \<and> (\<forall>i t c. body_conversationId body = Some i \<and> i \<noteq> [] \<and> body_content body = Some t \<and> t \<noteq> []
          \<and> select_conversation (store w) i = Some c \<longrightarrow>
        (role u = Client \<and> clientId c \<noteq> user_id u \<longrightarrow>
           send_message w u body mid now = (w, Inl (HttpError 403 ''Access denied'')))
      \<and> (role u = Client \<and> clientId c = user_id u \<and> status c \<noteq> Active \<longrightarrow>
           send_message w u body mid now =
             (w, Inl (HttpError 400 ''Conversation is not active yet'')))
      \<and> (role u = Attendant \<and> attendantId c \<noteq> Some (user_id u) \<longrightarrow>
           send_message w u body mid now = (w, Inl (HttpError 403 ''Access denied'')))
      \<and> (mid \<notin> msg_id ` set (messages (store w)) \<and> user_id u \<in> user_id ` set (users (store w))
          \<and> (role u = Client \<and> clientId c = user_id u \<and> status c = Active
              \<or> role u = Attendant \<and> attendantId c = Some (user_id u)
              \<or> role u = Admin) \<longrightarrow>
           (\<exists>m. snd (send_message w u body mid now) = Inr m
              \<and> messages (store (fst (send_message w u body mid now))) =
                  messages (store w) @ [msg m]
              \<and> msg m = \<lparr>msg_id = mid, conversationId = i, senderId = user_id u, content = t,
                          msg_createdAt = now\<rparr>)))"
proof (intro conjI allI impI)
  fix m assume "snd (send_message w u body mid now) = Inr m"
  then show "\<exists>i c. body_conversationId body = Some i \<and> select_conversation (store w) i = Some c
         \<and> (role u = Client \<longrightarrow> clientId c = user_id u \<and> status c = Active)
         \<and> (role u = Attendant \<longrightarrow> attendantId c = Some (user_id u))"
    by (auto simp: send_message_def falsy_def Let_def split: option.splits if_splits)
next
  fix i t c
  assume h: "body_conversationId body = Some i \<and> i \<noteq> [] \<and> body_content body = Some t \<and> t \<noteq> []
          \<and> select_conversation (store w) i = Some c"
  { assume "role u = Client \<and> clientId c \<noteq> user_id u"
    with h show "send_message w u body mid now = (w, Inl (HttpError 403 ''Access denied''))"
      by (simp add: send_message_def falsy_def) }
  { assume "role u = Client \<and> clientId c = user_id u \<and> status c \<noteq> Active"
    with h show "send_message w u body mid now =
        (w, Inl (HttpError 400 ''Conversation is not active yet''))"
      by (simp add: send_message_def falsy_def) }
  { assume "role u = Attendant \<and> attendantId c \<noteq> Some (user_id u)"
    with h show "send_message w u body mid now = (w, Inl (HttpError 403 ''Access denied''))"
      by (simp add: send_message_def falsy_def) }
  { assume a: "mid \<notin> msg_id ` set (messages (store w))
          \<and> user_id u \<in> user_id ` set (users (store w))
          \<and> (role u = Client \<and> clientId c = user_id u \<and> status c = Active
              \<or> role u = Attendant \<and> attendantId c = Some (user_id u)
              \<or> role u = Admin)"
    let ?m = "\<lparr>msg_id = mid, conversationId = i, senderId = user_id u, content = t,
               msg_createdAt = now\<rparr>"
    have c: "conv_id c = i" "c \<in> set (conversations (store w))"
      using h select_conversation_id [of "store w" i c] by simp_all
    then have "i \<in> conv_id ` set (conversations (store w))" by force
    with a have ins: "insert_message ?m (store w) =
        Some ((store w)\<lparr>messages := messages (store w) @ [?m]\<rparr>)"
      by (simp add: insert_message_def)
    show "\<exists>m. snd (send_message w u body mid now) = Inr m
              \<and> messages (store (fst (send_message w u body mid now))) =
                  messages (store w) @ [msg m]
              \<and> msg m = ?m"
      using h a ins
      by (auto simp: send_message_def falsy_def Let_def triggerWebhook_def
          update_conversations_def) }
qed

theorem append_authorization_witness:
  "send_message chat_world dan hello ''m1'' 10 =
     (chat_world, Inl (HttpError 403 ''Access denied''))
   \<and> send_message (chat_world\<lparr>store := db_with [c1_closed]\<rparr>) alice hello ''m1'' 10 =
     (chat_world\<lparr>store := db_with [c1_closed]\<rparr>,
      Inl (HttpError 400 ''Conversation is not active yet''))
   \<and> send_message (chat_world\<lparr>store := db_with [c1_pending]\<rparr>) bob hello ''m1'' 10 =
     (chat_world\<lparr>store := db_with [c1_pending]\<rparr>, Inl (HttpError 403 ''Access denied''))
   \<and> (\<exists>m. snd (send_message chat_world alice hello ''m1'' 10) = Inr m
         \<and> messages (store (fst (send_message chat_world alice hello ''m1'' 10))) = [msg m]
         \<and> msg m = \<lparr>msg_id = ''m1'', conversationId = ''c1'', senderId = ''u-alice'',
                     content = ''hello'', msg_createdAt = 10\<rparr>)
   \<and> (\<exists>m. snd (send_message (chat_world\<lparr>store := db_with [c1_closed]\<rparr>) bob hello ''m1'' 10)
           = Inr m)
   \<and> (\<exists>m. snd (send_message (chat_world\<lparr>store := db_with [c1_pending]\<rparr>) carol hello ''m1'' 10)
           = Inr m)"
proof -
  let ?closed = "chat_world\<lparr>store := db_with [c1_closed]\<rparr>"
  let ?pending = "chat_world\<lparr>store := db_with [c1_pending]\<rparr>"
  have b: "body_conversationId hello = Some ''c1'' \<and> ''c1'' \<noteq> []
           \<and> body_content hello = Some ''hello'' \<and> ''hello'' \<noteq> []"
    by (simp add: hello_def)
  have s1: "select_conversation (store chat_world) ''c1'' = Some c1_active"
    and s2: "select_conversation (store ?closed) ''c1'' = Some c1_closed"
    and s3: "select_conversation (store ?pending) ''c1'' = Some c1_pending"
    by (simp_all add: select_conversation_def deployment_defs)
  have f: "messages (store chat_world) = []" "messages (store ?closed) = []"
    "messages (store ?pending) = []"
    "user_id alice \<in> user_id ` set (users (store chat_world))"
    "user_id bob \<in> user_id ` set (users (store ?closed))"
    "user_id carol \<in> user_id ` set (users (store ?pending))"
    by (simp_all add: deployment_defs)
  have r: "role dan = Client" "clientId c1_active \<noteq> user_id dan" "role alice = Client"
    "clientId c1_closed = user_id alice" "status c1_closed \<noteq> Active"
    "clientId c1_active = user_id alice" "status c1_active = Active"
    "role bob = Attendant" "attendantId c1_closed = Some (user_id bob)"
    "attendantId c1_pending \<noteq> Some (user_id bob)" "role carol = Admin"
    "user_id alice = ''u-alice''"
    by (simp_all add: deployment_defs)
  note A = append_authorization [THEN conjunct2, rule_format]
  have 1: "send_message chat_world dan hello ''m1'' 10 =
     (chat_world, Inl (HttpError 403 ''Access denied''))"
    using A [of hello "''c1''" "''hello''" chat_world c1_active dan "''m1''" 10] b s1 r
    by simp
  have 2: "send_message ?closed alice hello ''m1'' 10 =
     (?closed, Inl (HttpError 400 ''Conversation is not active yet''))"
    using A [of hello "''c1''" "''hello''" ?closed c1_closed alice "''m1''" 10] b s2 r
    by simp
  have 3: "send_message ?pending bob hello ''m1'' 10 =
     (?pending, Inl (HttpError 403 ''Access denied''))"
    using A [of hello "''c1''" "''hello''" ?pending c1_pending bob "''m1''" 10] b s3 r
    by simp
  have 4: "\<exists>m. snd (send_message chat_world alice hello ''m1'' 10) = Inr m
         \<and> messages (store (fst (send_message chat_world alice hello ''m1'' 10))) = [msg m]
         \<and> msg m = \<lparr>msg_id = ''m1'', conversationId = ''c1'', senderId = ''u-alice'',
                     content = ''hello'', msg_createdAt = 10\<rparr>"
    using A [of hello "''c1''" "''hello''" chat_world c1_active alice "''m1''" 10] b s1 f r
    by simp
  have 5: "\<exists>m. snd (send_message ?closed bob hello ''m1'' 10) = Inr m"
    using A [of hello "''c1''" "''hello''" ?closed c1_closed bob "''m1''" 10] b s2 f r
    by auto
  have 6: "\<exists>m. snd (send_message ?pending carol hello ''m1'' 10) = Inr m"
    using A [of hello "''c1''" "''hello''" ?pending c1_pending carol "''m1''" 10] b s3 f r
    by auto
  show ?thesis using 1 2 3 4 5 6 by blast
qed

subsection \<open>Appending and the realtime gateway\<close>

text \<open>The handler of \<open>POST /messages\<close> never touches the gateway.\<close>

lemma send_message_io: "io (fst (send_message w u body mid now)) = io w"
  by (simp add: send_message_def Let_def triggerWebhook_def split: option.splits)

text \<open>
  C1. In the deployment, Alice posts "hello" into her active conversation \<open>c1\<close> while
  Bob's and her own socket are in the room \<open>conversation:c1\<close>. The append succeeds: the
  message is inserted, the conversation's \<open>updatedAt\<close> is touched, \<open>message.created\<close> is
  emitted and the answer carries the message with its sender. No socket receives
  anything: the handler does not call \<open>emitToConversation\<close>, and no \<open>message:new\<close>
  event reaches the room.
\<close>

theorem append_emits_nothing:
  "send_message chat_world alice hello ''m1'' 10 =
     (\<lparr>store = (db_with [c1_active\<lparr>updatedAt := 10\<rparr>])
          \<lparr>messages := [\<lparr>msg_id = ''m1'', conversationId = ''c1'', senderId = ''u-alice'',
                          content = ''hello'', msg_createdAt = 10\<rparr>]\<rparr>,
       dispatched = [MessageCreated ''m1'' ''c1'' ''u-alice''],
       io = Some [bob_socket, alice_socket]\<rparr>,
      Inr \<lparr>msg = \<lparr>msg_id = ''m1'', conversationId = ''c1'', senderId = ''u-alice'',
                    content = ''hello'', msg_createdAt = 10\<rparr>,
           sender_id = ''u-alice'', sender_name = ''Alice''\<rparr>)
   \<and> ''conversation:c1'' \<in> rooms bob_socket \<and> received bob_socket = []"
  by (simp add: send_message_def falsy_def select_conversation_def insert_message_def
      update_conversations_def triggerWebhook_def Let_def deployment_defs)

subsection \<open>The socket relay\<close>

text \<open>
  C9. A \<open>message:send\<close> event \<open>{conversationId, content}\<close> on a socket leaves the store
  (and with it the message ledger) and the dispatched domain events as they were. When
  the gateway is up and the socket connected, every other socket in the room
  \<open>conversation:<id>\<close> receives one \<open>message:new\<close> event with the content and the
  sending socket's principal as sender, and nothing else changes.
\<close>

theorem message_send_not_persisted:
  "store (socket_receive s (MessageSend c t) now w) = store w
   \<and> dispatched (socket_receive s (MessageSend c t) now w) = dispatched w
   \<and> (\<forall>socks sock. io w = Some socks \<and> find (\<lambda>x. sid x = s) socks = Some sock \<longrightarrow>
        io (socket_receive s (MessageSend c t) now w) =
          Some (map (\<lambda>x. if ''conversation:'' @ c \<in> rooms x \<and> sid x \<noteq> s
                         then x\<lparr>received := received x @
                                 [(''message:new'',
                                   MessageData c t (user_id (principal sock)) (name (principal sock)) now)]\<rparr>
                         else x) socks))"
proof (intro conjI allI impI)
  show "store (socket_receive s (MessageSend c t) now w) = store w"
    by (simp add: socket_receive_def split: option.splits)
  show "dispatched (socket_receive s (MessageSend c t) now w) = dispatched w"
    by (simp add: socket_receive_def split: option.splits)
next
  fix socks sock
  assume h: "io w = Some socks \<and> find (\<lambda>x. sid x = s) socks = Some sock"
  then have "sid sock = s" by (auto simp: find_Some_iff)
  with h show "io (socket_receive s (MessageSend c t) now w) =
          Some (map (\<lambda>x. if ''conversation:'' @ c \<in> rooms x \<and> sid x \<noteq> s
                         then x\<lparr>received := received x @
                                 [(''message:new'',
                                   MessageData c t (user_id (principal sock)) (name (principal sock)) now)]\<rparr>
                         else x) socks)"
    by (simp add: socket_receive_def on_socket_event_def socket_to_emit_def Let_def)
qed

theorem message_send_not_persisted_witness:
  "io chat_world = Some [bob_socket, alice_socket]
   \<and> find (\<lambda>x. sid x = 8) [bob_socket, alice_socket] = Some alice_socket
   \<and> socket_receive 8 (MessageSend ''c1'' ''psst'') 11 chat_world =
       chat_world\<lparr>io := Some [bob_socket\<lparr>received :=
                      [(''message:new'', MessageData ''c1'' ''psst'' ''u-alice'' ''Alice'' 11)]\<rparr>,
                    alice_socket]\<rparr>
   \<and> messages (store (socket_receive 8 (MessageSend ''c1'' ''psst'') 11 chat_world)) = []"
proof -
  have a: "io chat_world = Some [bob_socket, alice_socket]" by (simp add: chat_world_def)
  have b: "find (\<lambda>x. sid x = 8) [bob_socket, alice_socket] = Some alice_socket"
    by (simp add: deployment_defs)
  have c: "messages (store chat_world) = []" by (simp add: deployment_defs)
  note T = message_send_not_persisted [of 8 "''c1''" "''psst''" 11 chat_world]
  from T have 1: "store (socket_receive 8 (MessageSend ''c1'' ''psst'') 11 chat_world) = store chat_world"
    and 2: "dispatched (socket_receive 8 (MessageSend ''c1'' ''psst'') 11 chat_world) = dispatched chat_world"
    by simp_all
  from T a b have 3: "io (socket_receive 8 (MessageSend ''c1'' ''psst'') 11 chat_world) =
      Some [bob_socket\<lparr>received :=
                      [(''message:new'', MessageData ''c1'' ''psst'' ''u-alice'' ''Alice'' 11)]\<rparr>,
                    alice_socket]"
    by (simp add: deployment_defs)
  have "socket_receive 8 (MessageSend ''c1'' ''psst'') 11 chat_world =
       chat_world\<lparr>io := Some [bob_socket\<lparr>received :=
                      [(''message:new'', MessageData ''c1'' ''psst'' ''u-alice'' ''Alice'' 11)]\<rparr>,
                    alice_socket]\<rparr>"
    using 1 2 3 by (cases "socket_receive 8 (MessageSend ''c1'' ''psst'') 11 chat_world"; cases chat_world) simp
  then show ?thesis using a b c 1 by simp
qed

subsection \<open>Listing conversations\<close>

lemma run_query_mset:
  "mset (run_query q d) =
     mset (filter (\<lambda>c. case q of None \<Rightarrow> True | Some p \<Rightarrow> p c) (conversations d))"
  by (cases q) (simp_all add: run_query_def)

lemma run_query_sorted:
  "sorted_wrt (\<lambda>a b. createdAt a \<ge> createdAt b) (run_query q d)"
proof -
  have "sorted (map createdAt (sort_key createdAt xs))" for xs :: "conversation list"
    by (rule sorted_sort_key)
  then have "sorted_wrt (\<lambda>a b. createdAt a \<le> createdAt b) (sort_key createdAt xs)"
    for xs :: "conversation list"
    by (simp add: sorted_map)
  then show ?thesis
    by (simp add: run_query_def sorted_wrt_rev)
qed

lemma list_conversations_conv:
  "map conv (list_conversations d u st) = run_query (list_query u st) d"
  by (simp add: list_conversations_def comp_def)

text \<open>
  C8. The conversations of a list request are exactly, with multiplicity, the rows of
  the store that the requester may see (a client: \<open>clientId\<close> is the requester; an
  attendant: status pending or \<open>attendantId\<close> is the requester; an admin: all) and that
  have the status of the filter when one is given; they come ordered by \<open>createdAt\<close>
  descending.
\<close>

theorem list_visibility:
  "mset (map conv (list_conversations d u st)) =
     mset (filter
       (\<lambda>c. (case role u of
                Client \<Rightarrow> clientId c = user_id u
              | Attendant \<Rightarrow> status c = Pending \<or> attendantId c = Some (user_id u)
              | Admin \<Rightarrow> True)
            \<and> (case st of None \<Rightarrow> True | Some s \<Rightarrow> status c = s))
       (conversations d))
   \<and> sorted_wrt (\<lambda>a b. createdAt a \<ge> createdAt b) (map conv (list_conversations d u st))"
proof
  have "(case list_query u st of None \<Rightarrow> True | Some p \<Rightarrow> p c) =
      ((case role u of
                Client \<Rightarrow> clientId c = user_id u
              | Attendant \<Rightarrow> status c = Pending \<or> attendantId c = Some (user_id u)
              | Admin \<Rightarrow> True)
            \<and> (case st of None \<Rightarrow> True | Some s \<Rightarrow> status c = s))" for c
    by (cases "role u"; cases st) (simp_all add: list_query_def whereCondition_def)
  then show "mset (map conv (list_conversations d u st)) =
     mset (filter
       (\<lambda>c. (case role u of
                Client \<Rightarrow> clientId c = user_id u
              | Attendant \<Rightarrow> status c = Pending \<or> attendantId c = Some (user_id u)
              | Admin \<Rightarrow> True)
            \<and> (case st of None \<Rightarrow> True | Some s \<Rightarrow> status c = s))
       (conversations d))"
    by (simp add: list_conversations_conv run_query_mset)
  show "sorted_wrt (\<lambda>a b. createdAt a \<ge> createdAt b) (map conv (list_conversations d u st))"
    by (simp add: list_conversations_conv run_query_sorted)
qed

lemma list_conversations_example:
  "map conv (list_conversations (db_with [c1_active, c2_pending]) bob None) =
     [c2_pending, c1_active]
   \<and> map conv (list_conversations (db_with [c1_active, c2_pending]) alice None) = [c1_active]
   \<and> map conv (list_conversations (db_with [c1_active, c2_pending]) carol (Some Pending)) =
     [c2_pending]"
  by (simp add: list_conversations_def run_query_def list_query_def whereCondition_def
      deployment_defs c2_pending_def)

subsection \<open>The principal of a socket\<close>

text \<open>
  C10. A handshake that the gateway accepts gives the socket the user id of the token
  and, for a token without a role claim, the role \<open>client\<close>; a missing email or name
  becomes the empty string. \<open>generateToken\<close> signs \<open>{userId}\<close> only, so whenever the
  gateway accepts a token issued by the application for user \<open>uid\<close>, the principal is
  \<open>uid\<close> with role \<open>client\<close> and empty email and name, and the connection is put into the
  rooms \<open>user:uid\<close> and \<open>role:client\<close>. The store is not consulted: the user row that
  \<open>authenticate\<close> loads for the same token, whatever its role, has the same id.
\<close>

theorem socket_principal_defaults:
  "(\<forall>t p. io_use e now (Some t) = Inr p \<longrightarrow>
        user_id p = userId (jwt_payload t)
      \<and> (claim_role (jwt_payload t) = None \<longrightarrow> role p = Client)
      \<and> (claim_email (jwt_payload t) = None \<longrightarrow> email p = [])
      \<and> (claim_name (jwt_payload t) = None \<longrightarrow> name p = []))
   \<and> (\<forall>p. io_use e now (Some (generateToken e' issued uid)) = Inr p \<longrightarrow>
        p = \<lparr>user_id = uid, email = [], role = Client, name = []\<rparr>
      \<and> (\<forall>socks. io w = Some socks \<longrightarrow>
           connect e now s (Some (generateToken e' issued uid)) w =
             w\<lparr>io := Some (socks @ [\<lparr>sid = s, principal = p,
                                     rooms = {''user:'' @ uid, ''role:client''},
                                     received = []\<rparr>])\<rparr>)
      \<and> (\<forall>d u. authenticate d e now (Some (generateToken e' issued uid)) = Inr u \<longrightarrow>
           user_id u = uid \<and> u \<in> set (users d)))"
proof (intro conjI allI impI)
  fix t p assume h: "io_use e now (Some t) = Inr p"
  then show "user_id p = userId (jwt_payload t)"
    by (auto simp: io_use_def jwt_verify_def split: option.splits if_splits)
  { assume "claim_role (jwt_payload t) = None"
    with h show "role p = Client"
      by (auto simp: io_use_def jwt_verify_def split: option.splits if_splits) }
  { assume "claim_email (jwt_payload t) = None"
    with h show "email p = []"
      by (auto simp: io_use_def jwt_verify_def or_else_def split: option.splits if_splits) }
  { assume "claim_name (jwt_payload t) = None"
    with h show "name p = []"
      by (auto simp: io_use_def jwt_verify_def or_else_def split: option.splits if_splits) }
next
  fix p assume h: "io_use e now (Some (generateToken e' issued uid)) = Inr p"
  then show p: "p = \<lparr>user_id = uid, email = [], role = Client, name = []\<rparr>"
    by (auto simp: io_use_def jwt_verify_def generateToken_def jwt_sign_def or_else_def
        split: option.splits if_splits)
  { fix socks assume "io w = Some socks"
    with h p show "connect e now s (Some (generateToken e' issued uid)) w =
             w\<lparr>io := Some (socks @ [\<lparr>sid = s, principal = p,
                                     rooms = {''user:'' @ uid, ''role:client''},
                                     received = []\<rparr>])\<rparr>"
      by (simp add: connect_def on_connection_def) }
  { fix d u assume "authenticate d e now (Some (generateToken e' issued uid)) = Inr u"
    then have "user_id u = uid \<and> u \<in> set (users d)"
      by (auto simp: authenticate_def jwt_verify_def generateToken_def jwt_sign_def
          find_Some_iff split: option.splits if_splits)
    then show "user_id u = uid" and "u \<in> set (users d)" by simp_all }
qed

theorem socket_principal_defaults_witness:
  "io_use prod_env 200 (Some (generateToken prod_env 100 ''u-carol'')) =
     Inr \<lparr>user_id = ''u-carol'', email = [], role = Client, name = []\<rparr>
   \<and> authenticate empty_db prod_env 200 (Some (generateToken prod_env 100 ''u-carol'')) = Inr carol
   \<and> role carol = Admin
   \<and> connect prod_env 200 9 (Some (generateToken prod_env 100 ''u-carol'')) empty_world =
       empty_world\<lparr>io := Some [\<lparr>sid = 9,
          principal = \<lparr>user_id = ''u-carol'', email = [], role = Client, name = []\<rparr>,
          rooms = {''user:u-carol'', ''role:client''}, received = []\<rparr>]\<rparr>"
proof -
  let ?tok = "generateToken prod_env 100 ''u-carol''"
  have v: "jwt_verify ?tok ''s3cret'' 200 = Some (jwt_payload ?tok)"
    by (simp add: jwt_verify_def generateToken_def jwt_sign_def jwtSecret_def or_else_def prod_env_def)
  have a: "io_use prod_env 200 (Some ?tok) \<noteq> Inl ''Authentication required''"
    "io_use prod_env 200 (Some ?tok) \<noteq> Inl ''Invalid token''"
    using v by (simp_all add: io_use_def socket_JWT_SECRET_def or_else_def prod_env_def)
  then obtain p where p: "io_use prod_env 200 (Some ?tok) = Inr p"
    by (auto simp: io_use_def split: option.splits)
  have i: "io empty_world = Some []" by (simp add: empty_world_def)
  have au: "authenticate empty_db prod_env 200 (Some ?tok) = Inr carol"
    using v by (simp add: authenticate_def jwtSecret_def or_else_def prod_env_def
        generateToken_def jwt_sign_def deployment_defs)
  note T = socket_principal_defaults [THEN conjunct2, rule_format, OF p, of empty_world 9]
  have 1: "p = \<lparr>user_id = ''u-carol'', email = [], role = Client, name = []\<rparr>"
    using T by simp
  have 2: "connect prod_env 200 9 (Some ?tok) empty_world =
       empty_world\<lparr>io := Some [\<lparr>sid = 9, principal = p,
          rooms = {''user:u-carol'', ''role:client''}, received = []\<rparr>]\<rparr>"
    using T i by simp
  show ?thesis using p 1 2 au by (simp add: carol_def)
qed

text \<open>
  Without \<open>JWT_SECRET\<close> the two modules fall back to different secrets, and the gateway
  rejects every token the application issues.
\<close>

lemma socket_rejects_development_tokens:
  "JWT_SECRET e = None \<Longrightarrow>
     io_use e now (Some (generateToken e issued uid)) = Inl ''Invalid token''"
  by (simp add: io_use_def jwt_verify_def generateToken_def jwt_sign_def jwtSecret_def
      socket_JWT_SECRET_def or_else_def)

subsection \<open>Protocol codes\<close>

lemma charAt_chars:
  assumes "0 \<le> r" "r < 1"
  shows "\<exists>c. charAt chars \<lfloor>r * real (length chars)\<rfloor> = [c] \<and> c \<in> set chars"
proof -
  define n where "n = \<lfloor>r * 16\<rfloor>"
  have l: "length chars = 16" by (simp add: chars_def)
  have "0 \<le> n" using assms by (simp add: n_def)
  moreover have "n < 16" using assms by (simp add: n_def floor_less_iff)
  ultimately have "nat n < length chars" "0 \<le> n \<and> n < int (length chars)"
    by (simp_all add: l)
  then have "charAt chars n = [chars ! nat n]" "chars ! nat n \<in> set chars"
    by (simp_all add: charAt_def)
  then show ?thesis by (simp add: n_def l)
qed

lemma generate_loop:
  assumes "\<forall>k. 0 \<le> rnd k \<and> rnd k < 1"
  shows "length (foldl (\<lambda>p i. p @ charAt chars \<lfloor>rnd (k + i) * real (length chars)\<rfloor>) acc xs)
           = length acc + length xs
       \<and> set (foldl (\<lambda>p i. p @ charAt chars \<lfloor>rnd (k + i) * real (length chars)\<rfloor>) acc xs)
           \<subseteq> set acc \<union> set chars"
proof (induction xs arbitrary: acc)
  case Nil
  then show ?case by simp
next
  case (Cons x xs)
  obtain c where c: "charAt chars \<lfloor>rnd (k + x) * real (length chars)\<rfloor> = [c]" "c \<in> set chars"
    using charAt_chars assms by blast
  show ?case using Cons [of "acc @ [c]"] c by auto
qed

lemma generateProtocol_format:
  assumes "\<forall>k. 0 \<le> rnd k \<and> rnd k < 1"
  shows "length (generateProtocol rnd k) = 13"
    and "set (generateProtocol rnd k) \<subseteq> set ''0123456789ABCDEF''"
  using generate_loop [OF assms, of k "[]" "[0..<13]"]
  by (simp_all add: generateProtocol_def chars_def)

lemma unique_protocol_first_free:
  assumes "unique_protocol convs rnd k = Some p"
  shows "\<exists>n. p = generateProtocol rnd (k + 13 * n)
           \<and> p \<notin> protocol ` set convs
           \<and> (\<forall>m<n. generateProtocol rnd (k + 13 * m) \<in> protocol ` set convs)"
proof (rule unique_protocol.raw_induct [where P = "\<lambda>convs rnd k p.
    \<exists>n. p = generateProtocol rnd (k + 13 * n) \<and> p \<notin> protocol ` set convs
      \<and> (\<forall>m<n. generateProtocol rnd (k + 13 * m) \<in> protocol ` set convs)", OF _ assms],
    goal_cases)
  case (1 unique_protocol' convs rnd k p)
  show ?case
  proof (cases "filter (\<lambda>c. protocol c = generateProtocol rnd k) convs = []")
    case True
    then have "p = generateProtocol rnd k" using 1(2) by (simp add: Let_def)
    moreover have "generateProtocol rnd k \<notin> protocol ` set convs"
      using True by (auto simp: filter_empty_conv)
    ultimately show ?thesis by (intro exI [where x = 0]) simp
  next
    case False
    then have "unique_protocol' convs rnd (k + 13) = Some p" using 1(2) by (simp add: Let_def)
    from 1(1) [OF this] obtain n where n: "p = generateProtocol rnd (k + 13 + 13 * n)"
      "p \<notin> protocol ` set convs"
      "\<forall>m<n. generateProtocol rnd (k + 13 + 13 * m) \<in> protocol ` set convs"
      by blast
    have here: "generateProtocol rnd k \<in> protocol ` set convs"
      using False by (force simp: filter_empty_conv)
    have "\<forall>m<Suc n. generateProtocol rnd (k + 13 * m) \<in> protocol ` set convs"
    proof (intro allI impI)
      fix m assume "m < Suc n"
      show "generateProtocol rnd (k + 13 * m) \<in> protocol ` set convs"
      proof (cases m)
        case 0
        then show ?thesis using here by simp
      next
        case (Suc m')
        then have "m' < n" using \<open>m < Suc n\<close> by simp
        then show ?thesis using n(3) Suc by (simp add: add.assoc)
      qed
    qed
    then show ?thesis using n(1,2) by (intro exI [where x = "Suc n"]) (simp add: add.assoc)
  qed
qed

lemma unique_protocol_returns:
  assumes "generateProtocol rnd (k + 13 * n) \<notin> protocol ` set convs"
  shows "\<exists>p. unique_protocol convs rnd k = Some p"
  using assms
proof (induction n arbitrary: k)
  case 0
  show ?case
  proof (cases "filter (\<lambda>c. protocol c = generateProtocol rnd k) convs = []")
    case True
    then show ?thesis by (subst unique_protocol.simps) (simp add: Let_def)
  next
    case False
    then show ?thesis using 0 by (force simp: filter_empty_conv)
  qed
next
  case (Suc n)
  show ?case
  proof (cases "filter (\<lambda>c. protocol c = generateProtocol rnd k) convs = []")
    case True
    then show ?thesis by (subst unique_protocol.simps) (simp add: Let_def)
  next
    case False
    have "generateProtocol rnd (k + 13 + 13 * n) \<notin> protocol ` set convs"
      using Suc.prems by (simp add: add.assoc)
    from Suc.IH [OF this] obtain p where "unique_protocol convs rnd (k + 13) = Some p" by blast
    then show ?thesis using False by (subst unique_protocol.simps) (simp add: Let_def)
  qed
qed

lemma insert_conversation_Some:
  "insert_conversation c d = Some d' \<Longrightarrow>
     conversations d' = conversations d @ [c] \<and> conv_id c \<notin> conv_id ` set (conversations d)"
  by (auto simp: insert_conversation_def split: if_splits)

lemma insert_protocol_conversations:
  "insert_protocol p d = Some d' \<Longrightarrow> conversations d' = conversations d"
  by (auto simp: insert_protocol_def split: if_splits)

lemma insert_initial_message_conversations:
  "insert_initial_message body cid uid mid now d = Some d' \<Longrightarrow>
     conversations d' = conversations d"
  by (auto simp: insert_initial_message_def insert_message_def split: option.splits if_splits)

text \<open>What a request to create leaves in the table of conversations.\<close>

lemma create_conversations:
  assumes "create w u body rnd cid pid mid now = Some (w', r)"
  shows "(conversations (store w') = conversations (store w) \<and> (\<forall>c. r \<noteq> Inr c))
       \<or> (\<exists>p. unique_protocol (conversations (store w)) rnd 0 = Some p
             \<and> cid \<notin> conv_id ` set (conversations (store w))
             \<and> conversations (store w') = conversations (store w) @
                  [\<lparr>conv_id = cid, protocol = p, channelId = body_channelId body,
                    clientId = user_id u, attendantId = None, status = Pending,
                    createdAt = now, updatedAt = now\<rparr>]
             \<and> (\<forall>c. r = Inr c \<longrightarrow> c = \<lparr>conv_id = cid, protocol = p,
                    channelId = body_channelId body,
                    clientId = user_id u, attendantId = None, status = Pending,
                    createdAt = now, updatedAt = now\<rparr>))"
proof (cases "role u = Client")
  case False
  then show ?thesis using assms by (auto simp: create_def)
next
  case True
  then obtain p where p: "unique_protocol (conversations (store w)) rnd 0 = Some p"
    using assms by (auto simp: create_def split: option.splits)
  let ?c = "\<lparr>conv_id = cid, protocol = p, channelId = body_channelId body,
             clientId = user_id u, attendantId = None, status = Pending,
             createdAt = now, updatedAt = now\<rparr>"
  show ?thesis
  proof (cases "insert_conversation ?c (store w)")
    case None
    then show ?thesis using assms True p by (auto simp: create_def Let_def)
  next
    case (Some d1)
    note d1 = insert_conversation_Some [OF Some]
    have "conversations (store w') = conversations d1 \<and> (\<forall>c. r = Inr c \<longrightarrow> c = ?c)"
      using assms True p Some
      by (auto simp: create_def Let_def triggerWebhook_def split: option.splits
          dest: insert_protocol_conversations)
        (metis insert_protocol_conversations insert_initial_message_conversations)
    then show ?thesis using d1 p by simp
  qed
qed

text \<open>
  C5. With a random source in \<open>[0, 1)\<close>, whatever a request to create adds to the
  table of conversations carries a protocol code of exactly 13 characters, all among
  \<open>0-9A-F\<close>, that no conversation present before the request has; the code is the
  first draw that is free, every earlier draw having collided. A conversation returned
  by the request is such a new row. The uniqueness loop ends, for a client, as soon as
  some draw is free.
\<close>

theorem created_protocol:
  assumes "\<forall>k. 0 \<le> rnd k \<and> rnd k < 1"
  shows "(\<forall>w' r. create w u body rnd cid pid mid now = Some (w', r) \<longrightarrow>
            (\<forall>c \<in> set (conversations (store w')).
               c \<in> set (conversations (store w))
               \<or> (length (protocol c) = 13
                  \<and> set (protocol c) \<subseteq> set ''0123456789ABCDEF''
                  \<and> protocol c \<notin> protocol ` set (conversations (store w))
                  \<and> (\<exists>n. protocol c = generateProtocol rnd (13 * n)
                        \<and> (\<forall>m<n. generateProtocol rnd (13 * m)
                               \<in> protocol ` set (conversations (store w))))))
          \<and> (\<forall>c. r = Inr c \<longrightarrow>
                 c \<in> set (conversations (store w')) \<and> c \<notin> set (conversations (store w))))
       \<and> (role u = Client
            \<and> (\<exists>n. generateProtocol rnd (13 * n) \<notin> protocol ` set (conversations (store w)))
          \<longrightarrow> (\<exists>w' r. create w u body rnd cid pid mid now = Some (w', r)))"
proof (intro conjI allI impI ballI)
  fix w' r c
  assume cr: "create w u body rnd cid pid mid now = Some (w', r)"
  note cc = create_conversations [OF cr]
  { assume c: "c \<in> set (conversations (store w'))"
    show "c \<in> set (conversations (store w))
               \<or> (length (protocol c) = 13
                  \<and> set (protocol c) \<subseteq> set ''0123456789ABCDEF''
                  \<and> protocol c \<notin> protocol ` set (conversations (store w))
                  \<and> (\<exists>n. protocol c = generateProtocol rnd (13 * n)
                        \<and> (\<forall>m<n. generateProtocol rnd (13 * m)
                               \<in> protocol ` set (conversations (store w)))))"
    proof (cases "c \<in> set (conversations (store w))")
      case True
      then show ?thesis by simp
    next
      case False
      with cc c obtain p where p: "unique_protocol (conversations (store w)) rnd 0 = Some p"
        "protocol c = p"
        by auto
      from unique_protocol_first_free [OF p(1)] obtain n where
        n: "p = generateProtocol rnd (13 * n)" "p \<notin> protocol ` set (conversations (store w))"
        "\<forall>m<n. generateProtocol rnd (13 * m) \<in> protocol ` set (conversations (store w))"
        by auto
      have "length p = 13" "set p \<subseteq> set ''0123456789ABCDEF''"
        using generateProtocol_format [OF assms] n(1) by simp_all
      then show ?thesis using p(2) n by blast
    qed }
  { assume r: "r = Inr c"
    with cc have "conv_id c = cid" "cid \<notin> conv_id ` set (conversations (store w))"
      "c \<in> set (conversations (store w'))"
      by auto
    then show "c \<in> set (conversations (store w'))" "c \<notin> set (conversations (store w))"
      by auto }
next
  assume h: "role u = Client
            \<and> (\<exists>n. generateProtocol rnd (13 * n) \<notin> protocol ` set (conversations (store w)))"
  then obtain n where "generateProtocol rnd (0 + 13 * n) \<notin> protocol ` set (conversations (store w))"
    by auto
  from unique_protocol_returns [OF this] obtain p where
    "unique_protocol (conversations (store w)) rnd 0 = Some p" by blast
  then show "\<exists>w' r. create w u body rnd cid pid mid now = Some (w', r)"
    using h by (simp add: create_def Let_def split: option.splits)
qed

lemma sixteenths_range: "\<forall>k. 0 \<le> sixteenths k \<and> sixteenths k < 1"
  by (simp add: sixteenths_def)

lemma sixteenths_draws:
  "generateProtocol sixteenths 0 = ''0123456789ABC''"
  "generateProtocol sixteenths 13 = ''DEF0123456789''"
  by (simp_all add: generateProtocol_def sixteenths_def charAt_def chars_def upt_rec)

lemma unique_protocol_redraws:
  "unique_protocol [c2_pending] sixteenths 0 = Some ''DEF0123456789''"
proof -
  have p: "protocol c2_pending = ''0123456789ABC''" by (simp add: c2_pending_def)
  have 2: "unique_protocol [c2_pending] sixteenths 13 = Some ''DEF0123456789''"
    by (subst unique_protocol.simps) (simp add: sixteenths_draws p Let_def)
  show ?thesis
    by (subst unique_protocol.simps) (simp add: sixteenths_draws p 2 Let_def)
qed

lemma create_example:
  "create (empty_world\<lparr>store := db_with [c2_pending]\<rparr>) alice greeting sixteenths
       ''c3'' ''p3'' ''m3'' 20 =
     Some (\<lparr>store = (db_with [c2_pending, c3_created])
              \<lparr>messages := [\<lparr>msg_id = ''m3'', conversationId = ''c3'', senderId = ''u-alice'',
                              content = ''hi'', msg_createdAt = 20\<rparr>],
               protocols := [\<lparr>prot_id = ''p3'', prot_protocol = ''DEF0123456789'',
                               prot_conversationId = ''c3'', prot_createdAt = 20\<rparr>]\<rparr>,
             dispatched = [ConversationCreated c3_created], io = Some []\<rparr>,
           Inr c3_created)"
proof -
  have c: "conversations (db_with [c2_pending]) = [c2_pending]"
    by (simp add: db_with_def)
  have r: "role alice = Client" by (simp add: alice_def)
  show ?thesis
    by (simp add: create_def r c unique_protocol_redraws Let_def)
      (simp add: insert_conversation_def insert_protocol_def insert_initial_message_def
        insert_message_def triggerWebhook_def deployment_defs c2_pending_def c3_created_def
        greeting_def)
qed

theorem created_protocol_witness:
  "(\<exists>w'. create (empty_world\<lparr>store := db_with [c2_pending]\<rparr>) alice greeting sixteenths
       ''c3'' ''p3'' ''m3'' 20 = Some (w', Inr c3_created))
   \<and> length (protocol c3_created) = 13
   \<and> set (protocol c3_created) \<subseteq> set ''0123456789ABCDEF''
   \<and> protocol c3_created \<notin> protocol ` set [c2_pending]
   \<and> protocol c3_created = generateProtocol sixteenths 13
   \<and> generateProtocol sixteenths 0 = protocol c2_pending"
proof -
  let ?w = "empty_world\<lparr>store := db_with [c2_pending]\<rparr>"
  let ?w' = "\<lparr>store = (db_with [c2_pending, c3_created])
              \<lparr>messages := [\<lparr>msg_id = ''m3'', conversationId = ''c3'', senderId = ''u-alice'',
                              content = ''hi'', msg_createdAt = 20\<rparr>],
               protocols := [\<lparr>prot_id = ''p3'', prot_protocol = ''DEF0123456789'',
                               prot_conversationId = ''c3'', prot_createdAt = 20\<rparr>]\<rparr>,
             dispatched = [ConversationCreated c3_created], io = Some []\<rparr>"
  note T0 = created_protocol [OF sixteenths_range, THEN conjunct1, rule_format, OF create_example]
  note T = T0 [THEN conjunct1, rule_format] T0 [THEN conjunct2, rule_format]
  have in': "c3_created \<in> set (conversations (store ?w'))" by (simp add: db_with_def)
  have old: "conversations (store ?w) = [c2_pending]" by (simp add: db_with_def)
  have new: "c3_created \<notin> set (conversations (store ?w))"
    using T(2) [of c3_created] by simp
  from T(1) [OF in'] new old
  have "length (protocol c3_created) = 13
      \<and> set (protocol c3_created) \<subseteq> set ''0123456789ABCDEF''
      \<and> protocol c3_created \<notin> protocol ` set [c2_pending]"
    by simp
  then show ?thesis
    using create_example by (simp add: sixteenths_draws c2_pending_def c3_created_def)
qed

subsection \<open>Pending conversations have no attendant\<close>

text \<open>The table of conversations after each handler.\<close>

lemma assign_conversations:
  "conversations (store (fst (assign w u i now))) = conversations (store w)
   \<or> (\<exists>c. select_conversation (store w) i = Some c \<and> status c = Pending
         \<and> conversations (store (fst (assign w u i now))) =
             map (\<lambda>c. if conv_id c = i
                       then c\<lparr>attendantId := Some (user_id u), status := Active, updatedAt := now\<rparr>
                       else c) (conversations (store w)))"
  by (auto simp: assign_def Let_def triggerWebhook_def update_conversations_def
      split: option.splits)

lemma close_conversations:
  "conversations (store (fst (close w u i now))) = conversations (store w)
   \<or> conversations (store (fst (close w u i now))) =
        map (\<lambda>c. if conv_id c = i then c\<lparr>status := Closed, updatedAt := now\<rparr> else c)
          (conversations (store w))"
  by (auto simp: close_def Let_def triggerWebhook_def update_conversations_def
      split: option.splits)

lemma send_message_conversations:
  "conversations (store (fst (send_message w u body mid now))) = conversations (store w)
   \<or> (\<exists>i. conversations (store (fst (send_message w u body mid now))) =
        map (\<lambda>c. if conv_id c = i then c\<lparr>updatedAt := now\<rparr> else c) (conversations (store w)))"
  by (auto simp: send_message_def Let_def triggerWebhook_def update_conversations_def
      insert_message_def split: option.splits if_splits)

lemma connect_store: "store (connect e now s token w) = store w"
  by (simp add: connect_def split: option.splits sum.splits)

lemma socket_receive_store: "store (socket_receive s ev now w) = store w"
  by (simp add: socket_receive_def split: option.splits)

lemma pending_unassigned_map:
  assumes "pending_unassigned d"
    and "conversations d' = map g (conversations d)"
    and "\<And>c. (status c = Pending \<longrightarrow> attendantId c = None) \<Longrightarrow>
              (status (g c) = Pending \<longrightarrow> attendantId (g c) = None)"
  shows "pending_unassigned d'"
  using assms by (simp add: pending_unassigned_def list_all_iff)

lemma pending_unassigned_same:
  "pending_unassigned d \<Longrightarrow> conversations d' = conversations d \<Longrightarrow> pending_unassigned d'"
  by (simp add: pending_unassigned_def)

lemma pending_unassigned_assign:
  assumes "pending_unassigned (store w)"
  shows "pending_unassigned (store (fst (assign w u i now)))"
  using assign_conversations [of w u i now]
proof (elim disjE exE conjE)
  assume "conversations (store (fst (assign w u i now))) = conversations (store w)"
  then show ?thesis using assms by (rule pending_unassigned_same [rotated])
next
  fix c
  assume "conversations (store (fst (assign w u i now))) =
             map (\<lambda>c. if conv_id c = i
                       then c\<lparr>attendantId := Some (user_id u), status := Active, updatedAt := now\<rparr>
                       else c) (conversations (store w))"
  then show ?thesis by (rule pending_unassigned_map [OF assms]) simp
qed

lemma pending_unassigned_close:
  assumes "pending_unassigned (store w)"
  shows "pending_unassigned (store (fst (close w u i now)))"
  using close_conversations [of w u i now]
proof (elim disjE)
  assume "conversations (store (fst (close w u i now))) = conversations (store w)"
  then show ?thesis using assms by (rule pending_unassigned_same [rotated])
next
  assume "conversations (store (fst (close w u i now))) =
        map (\<lambda>c. if conv_id c = i then c\<lparr>status := Closed, updatedAt := now\<rparr> else c)
          (conversations (store w))"
  then show ?thesis by (rule pending_unassigned_map [OF assms]) simp
qed

lemma pending_unassigned_send_message:
  assumes "pending_unassigned (store w)"
  shows "pending_unassigned (store (fst (send_message w u body mid now)))"
  using send_message_conversations [of w u body mid now]
proof (elim disjE exE)
  assume "conversations (store (fst (send_message w u body mid now))) = conversations (store w)"
  then show ?thesis using assms by (rule pending_unassigned_same [rotated])
next
  fix i
  assume "conversations (store (fst (send_message w u body mid now))) =
        map (\<lambda>c. if conv_id c = i then c\<lparr>updatedAt := now\<rparr> else c) (conversations (store w))"
  then show ?thesis by (rule pending_unassigned_map [OF assms]) simp
qed

lemma create_adds_pending:
  assumes "create w u body rnd cid pid mid now = Some (w', resp)"
  shows "conversations (store w') = conversations (store w)
       \<or> (\<exists>c. conversations (store w') = conversations (store w) @ [c]
             \<and> status c = Pending \<and> attendantId c = None)"
  using create_conversations [OF assms] by auto

lemma pending_unassigned_create:
  assumes "pending_unassigned (store w)"
    and "create w u body rnd cid pid mid now = Some (w', resp)"
  shows "pending_unassigned (store w')"
  using create_adds_pending [OF assms(2)] assms(1)
  by (auto simp: pending_unassigned_def)

lemma pending_unassigned_step:
  assumes "pending_unassigned (store w)"
  shows "pending_unassigned (store (step w r))"
proof (cases r)
  case (Create u body rnd cid pid mid now)
  show ?thesis
  proof (cases "create w u body rnd cid pid mid now")
    case None
    then show ?thesis using assms Create by simp
  next
    case (Some a)
    then obtain w' resp where "create w u body rnd cid pid mid now = Some (w', resp)"
      by (cases a) simp
    then show ?thesis using pending_unassigned_create [OF assms] Create by simp
  qed
next
  case (Assign u i now)
  then show ?thesis using pending_unassigned_assign [OF assms] by simp
next
  case (Close u i now)
  then show ?thesis using pending_unassigned_close [OF assms] by simp
next
  case (SendMessage u body mid now)
  then show ?thesis using pending_unassigned_send_message [OF assms] by simp
next
  case (SocketConnect e now s token)
  then show ?thesis using assms by (simp add: connect_store)
next
  case (SocketEvent s ev now)
  then show ?thesis using assms by (simp add: socket_receive_store)
qed

text \<open>
  C4. Every request keeps the invariant that a pending conversation has no attendant.
  A create leaves the table of conversations as it was or adds one row, pending and
  without attendant; an assign leaves each row as it was or with the requester as
  attendant and status active; a close and an append leave the \<open>attendantId\<close> of every
  row as it was.
\<close>

theorem pending_unassigned_invariant:
  assumes "pending_unassigned (store w)"
  shows "pending_unassigned (store (step w r))
     \<and> (\<forall>w' resp. create w u body rnd cid pid mid now = Some (w', resp) \<longrightarrow>
          conversations (store w') = conversations (store w)
        \<or> (\<exists>c. conversations (store w') = conversations (store w) @ [c]
              \<and> status c = Pending \<and> attendantId c = None))
     \<and> list_all2 (\<lambda>c c'. c' = c \<or> attendantId c' = Some (user_id u) \<and> status c' = Active)
          (conversations (store w)) (conversations (store (fst (assign w u i now))))
     \<and> map attendantId (conversations (store (fst (close w u i now)))) =
          map attendantId (conversations (store w))
     \<and> map attendantId (conversations (store (fst (send_message w u mbody mid now)))) =
          map attendantId (conversations (store w))"
proof (intro conjI allI impI)
  show "pending_unassigned (store (step w r))"
    using assms by (rule pending_unassigned_step)
  show "conversations (store w') = conversations (store w)
        \<or> (\<exists>c. conversations (store w') = conversations (store w) @ [c]
              \<and> status c = Pending \<and> attendantId c = None)"
    if "create w u body rnd cid pid mid now = Some (w', resp)" for w' resp
    using that by (rule create_adds_pending)
  show "list_all2 (\<lambda>c c'. c' = c \<or> attendantId c' = Some (user_id u) \<and> status c' = Active)
          (conversations (store w)) (conversations (store (fst (assign w u i now))))"
    using assign_conversations [of w u i now]
    by (auto simp: list_all2_conv_all_nth)
  show "map attendantId (conversations (store (fst (close w u i now)))) =
          map attendantId (conversations (store w))"
    using close_conversations [of w u i now] by (auto simp: comp_def)
  show "map attendantId (conversations (store (fst (send_message w u mbody mid now)))) =
          map attendantId (conversations (store w))"
    using send_message_conversations [of w u mbody mid now] by (auto simp: comp_def)
qed

theorem pending_unassigned_invariant_witness:
  "pending_unassigned (db_with [c2_pending])
   \<and> pending_unassigned
       (store (step (chat_world\<lparr>store := db_with [c2_pending]\<rparr>) (Assign bob ''c2'' 5)))
   \<and> conversations
       (store (step (chat_world\<lparr>store := db_with [c2_pending]\<rparr>) (Assign bob ''c2'' 5))) =
       [c2_pending\<lparr>attendantId := Some ''u-bob'', status := Active, updatedAt := 5\<rparr>]"
proof -
  let ?w = "chat_world\<lparr>store := db_with [c2_pending]\<rparr>"
  have p: "pending_unassigned (store ?w)"
    by (simp add: pending_unassigned_def db_with_def c2_pending_def)
  have a: "conversations (store (step ?w (Assign bob ''c2'' 5))) =
       [c2_pending\<lparr>attendantId := Some ''u-bob'', status := Active, updatedAt := 5\<rparr>]"
    by (simp add: assign_def select_conversation_def update_conversations_def
        triggerWebhook_def Let_def deployment_defs c2_pending_def)
  show ?thesis
    using p a pending_unassigned_invariant [OF p, of "Assign bob ''c2'' 5"] by simp
qed

subsection \<open>Status transitions\<close>

lemma observe_same:
  "conversations (store w') = conversations (store w) \<Longrightarrow> observe i w' = observe i w"
  by (simp add: observe_def select_conversation_def)

lemma observe_update:
  assumes "conversations (store w') =
      map (\<lambda>c. if conv_id c = j then f c else c) (conversations (store w))"
    and "\<And>c. conv_id (f c) = conv_id c"
  shows "observe i w' =
     (case select_conversation (store w) i of
        None \<Rightarrow> []
      | Some c \<Rightarrow> if i = j then [status (f c)] else [status c])"
proof (cases "select_conversation (store w) i")
  case None
  then show ?thesis
    using assms by (simp add: observe_def select_conversation_def find_map_id)
next
  case (Some c)
  then have "conv_id c = i" by (simp add: select_conversation_id)
  then show ?thesis
    using assms Some by (simp add: observe_def select_conversation_def find_map_id)
qed

lemma observe_insert:
  assumes "conversations (store w') = conversations (store w) @ [c]"
  shows "observe i w' =
     (case select_conversation (store w) i of
        None \<Rightarrow> if conv_id c = i then [status c] else []
      | Some x \<Rightarrow> [status x])"
  using assms by (simp add: observe_def select_conversation_def find_snoc split: option.splits)

lemma observe_cases:
  "observe i w = [] \<or> observe i w = [Pending] \<or> observe i w = [Active] \<or> observe i w = [Closed]"
  by (cases "select_conversation (store w) i")
    (auto simp: observe_def intro: status.exhaust)

text \<open>The table of conversations, and the status read from it, after a step of a task.\<close>

lemma start_store: "store (fst (start w r)) = store w"
  by (cases r) (simp_all add: connect_store socket_receive_store)

lemma insert_message_conversations:
  "insert_message m d = Some d' \<Longrightarrow> conversations d' = conversations d"
  by (auto simp: insert_message_def split: if_splits)

lemma resume_conversations:
  "conversations (store (fst (resume w t))) = conversations (store w)
   \<or> (\<exists>c. conversations (store (fst (resume w t))) = conversations (store w) @ [c]
         \<and> status c = Pending)
   \<or> (\<exists>u j now. t = AssignUpdate u j now
         \<and> conversations (store (fst (resume w t))) =
             map (\<lambda>c. if conv_id c = j
                       then c\<lparr>attendantId := Some (user_id u), status := Active, updatedAt := now\<rparr>
                       else c) (conversations (store w)))
   \<or> (\<exists>j now. conversations (store (fst (resume w t))) =
             map (\<lambda>c. if conv_id c = j then c\<lparr>status := Closed, updatedAt := now\<rparr> else c)
               (conversations (store w)))
   \<or> (\<exists>j now. conversations (store (fst (resume w t))) =
             map (\<lambda>c. if conv_id c = j then c\<lparr>updatedAt := now\<rparr> else c)
               (conversations (store w)))"
proof (cases t)
  case (AssignSelect u i now)
  then show ?thesis by (simp split: option.splits)
next
  case (AssignUpdate u i now)
  then show ?thesis
    by (auto simp: Let_def update_conversations_def split: option.splits)
next
  case (CloseSelect u i now)
  then show ?thesis by (simp split: option.splits)
next
  case (CloseUpdate u i now)
  then have "conversations (store (fst (resume w t))) =
             map (\<lambda>c. if conv_id c = i then c\<lparr>status := Closed, updatedAt := now\<rparr> else c)
               (conversations (store w))"
    by (simp add: Let_def update_conversations_def split: option.splits)
  then show ?thesis by blast
next
  case (MessageSelect u i c mid now)
  then show ?thesis by (simp split: option.splits)
next
  case (MessageInsert u i c mid now)
  then show ?thesis
    by (auto simp: Let_def split: option.splits dest: insert_message_conversations)
next
  case (MessageUpdate u m now)
  then have "conversations (store (fst (resume w t))) =
             map (\<lambda>c. if conv_id c = conversationId m then c\<lparr>updatedAt := now\<rparr> else c)
               (conversations (store w))"
    by (simp add: update_conversations_def)
  then show ?thesis by blast
next
  case (CreateSelect u body rnd k cid pid mid now)
  then show ?thesis by (simp add: Let_def)
next
  case (CreateInsert u body p cid pid mid now)
  then show ?thesis
    by (auto simp: Let_def split: option.splits dest!: insert_conversation_Some)
next
  case (CreateProtocol u body c pid mid now)
  then show ?thesis
    by (auto split: option.splits dest: insert_protocol_conversations)
next
  case (CreateMessage u t' c mid now)
  then show ?thesis
    by (auto split: option.splits dest: insert_message_conversations)
next
  case (Webhook e r)
  then show ?thesis by (simp add: triggerWebhook_def)
qed

lemma observe_resume:
  "observe i (fst (resume w t)) = observe i w
   \<or> observe i w = [] \<and> observe i (fst (resume w t)) = [Pending]
   \<or> (\<exists>u now. t = AssignUpdate u i now) \<and> observe i w \<noteq> []
       \<and> observe i (fst (resume w t)) = [Active]
   \<or> observe i w \<noteq> [] \<and> observe i (fst (resume w t)) = [Closed]"
  using resume_conversations [of w t]
proof (elim disjE exE conjE)
  assume "conversations (store (fst (resume w t))) = conversations (store w)"
  then have "observe i (fst (resume w t)) = observe i w" by (rule observe_same)
  then show ?thesis by simp
next
  fix c
  assume c: "conversations (store (fst (resume w t))) = conversations (store w) @ [c]"
    "status c = Pending"
  have "observe i (fst (resume w t)) =
     (case select_conversation (store w) i of
        None \<Rightarrow> if conv_id c = i then [status c] else []
      | Some x \<Rightarrow> [status x])"
    using c(1) by (rule observe_insert)
  then show ?thesis
    using c(2) by (simp add: observe_def [of i w] split: option.splits)
next
  fix u j now
  assume t: "t = AssignUpdate u j now"
    and c: "conversations (store (fst (resume w t))) =
             map (\<lambda>c. if conv_id c = j
                       then c\<lparr>attendantId := Some (user_id u), status := Active, updatedAt := now\<rparr>
                       else c) (conversations (store w))"
  have "observe i (fst (resume w t)) =
     (case select_conversation (store w) i of
        None \<Rightarrow> []
      | Some c \<Rightarrow> if i = j
          then [status (c\<lparr>attendantId := Some (user_id u), status := Active, updatedAt := now\<rparr>)]
          else [status c])"
    using c by (rule observe_update) simp
  then show ?thesis
    using t by (simp add: observe_def [of i w] split: option.splits)
next
  fix j now
  assume c: "conversations (store (fst (resume w t))) =
             map (\<lambda>c. if conv_id c = j then c\<lparr>status := Closed, updatedAt := now\<rparr> else c)
               (conversations (store w))"
  have "observe i (fst (resume w t)) =
     (case select_conversation (store w) i of
        None \<Rightarrow> []
      | Some c \<Rightarrow> if i = j then [status (c\<lparr>status := Closed, updatedAt := now\<rparr>)]
          else [status c])"
    using c by (rule observe_update) simp
  then show ?thesis
    by (simp add: observe_def [of i w] split: option.splits)
next
  fix j now
  assume c: "conversations (store (fst (resume w t))) =
             map (\<lambda>c. if conv_id c = j then c\<lparr>updatedAt := now\<rparr> else c)
               (conversations (store w))"
  have "observe i (fst (resume w t)) =
     (case select_conversation (store w) i of
        None \<Rightarrow> []
      | Some c \<Rightarrow> if i = j then [status (c\<lparr>updatedAt := now\<rparr>)] else [status c])"
    using c by (rule observe_update) simp
  then show ?thesis
    by (simp add: observe_def [of i w] split: option.splits)
qed

lemma server_settle: "server (settle n res s) = fst res"
  by (simp add: settle_def split: outcome.splits)

lemma observe_deliver:
  "observe i (server (deliver s e)) = observe i (server s)
   \<or> observe i (server s) = [] \<and> observe i (server (deliver s e)) = [Pending]
   \<or> assign_update_of i s e \<and> observe i (server s) \<noteq> []
       \<and> observe i (server (deliver s e)) = [Active]
   \<or> observe i (server s) \<noteq> [] \<and> observe i (server (deliver s e)) = [Closed]"
proof (cases e)
  case (Arrive n r)
  have "observe i (fst (start (server s) r)) = observe i (server s)"
    by (rule observe_same) (simp add: start_store)
  then show ?thesis using Arrive by (simp add: server_settle split: option.splits)
next
  case (Resume n)
  show ?thesis
  proof (cases "inflight s n")
    case None
    then show ?thesis using Resume by simp
  next
    case (Some t)
    then have d: "server (deliver s e) = fst (resume (server s) t)"
      using Resume by (simp add: server_settle)
    have a: "assign_update_of i s e" if "t = AssignUpdate u i now" for u now
      using that Resume Some by (simp add: assign_update_of_def)
    show ?thesis
      using observe_resume [of i "server s" t] a unfolding d by blast
  qed
qed

lemma history_head:
  "observe i (server s) = [a] \<Longrightarrow> \<exists>tl. status_history i s es = a # tl"
  by (cases es) simp_all

lemma transitions_Cons_absent:
  "observe i (server s) = [] \<Longrightarrow> transitions i s (e # es) = transitions i (deliver s e) es"
  by (simp add: transitions_def)

lemma transitions_Cons_present:
  assumes "observe i (server s) = [a]" and "observe i (server (deliver s e)) = [b]"
  shows "transitions i s (e # es) =
     (if a = b then transitions i (deliver s e) es else a # transitions i (deliver s e) es)"
proof -
  obtain tl where "status_history i (deliver s e) es = b # tl"
    using history_head [OF assms(2)] by blast
  then show ?thesis using assms(1) by (simp add: transitions_def)
qed

lemma transitions_from:
  assumes "assign_finds_pending i s es"
  shows "(observe i (server s) = [] \<longrightarrow> transitions i s es \<in>
      {[], [Pending], [Pending, Active], [Pending, Closed], [Pending, Active, Closed]})
   \<and> (observe i (server s) = [Pending] \<longrightarrow> transitions i s es \<in>
      {[Pending], [Pending, Active], [Pending, Closed], [Pending, Active, Closed]})
   \<and> (observe i (server s) = [Active] \<longrightarrow> transitions i s es \<in> {[Active], [Active, Closed]})
   \<and> (observe i (server s) = [Closed] \<longrightarrow> transitions i s es = [Closed])"
  using assms
proof (induction es arbitrary: s)
  case Nil
  show ?case by (simp add: transitions_def)
next
  case (Cons e es)
  have fp: "assign_update_of i s e \<longrightarrow> observe i (server s) = [Pending]"
    and "assign_finds_pending i (deliver s e) es"
    using Cons.prems by simp_all
  note IH = Cons.IH [OF this(2)]
  note st = observe_deliver [of i s e]
  show ?case
  proof (intro conjI impI)
    assume a: "observe i (server s) = []"
    then have "observe i (server (deliver s e)) = []
        \<or> observe i (server (deliver s e)) = [Pending]"
      using st by auto
    then show "transitions i s (e # es) \<in>
      {[], [Pending], [Pending, Active], [Pending, Closed], [Pending, Active, Closed]}"
      using IH by (auto simp: transitions_Cons_absent [OF a])
  next
    assume a: "observe i (server s) = [Pending]"
    then consider "observe i (server (deliver s e)) = [Pending]"
      | "observe i (server (deliver s e)) = [Active]"
      | "observe i (server (deliver s e)) = [Closed]"
      using st by auto
    then show "transitions i s (e # es) \<in>
      {[Pending], [Pending, Active], [Pending, Closed], [Pending, Active, Closed]}"
    proof cases
      case 1
      then show ?thesis using IH by (simp add: transitions_Cons_present [OF a 1])
    next
      case 2
      then show ?thesis using IH by (auto simp: transitions_Cons_present [OF a 2])
    next
      case 3
      then show ?thesis using IH by (auto simp: transitions_Cons_present [OF a 3])
    qed
  next
    assume a: "observe i (server s) = [Active]"
    then consider "observe i (server (deliver s e)) = [Active]"
      | "observe i (server (deliver s e)) = [Closed]"
      using st fp by auto
    then show "transitions i s (e # es) \<in> {[Active], [Active, Closed]}"
    proof cases
      case 1
      then show ?thesis using IH by (simp add: transitions_Cons_present [OF a 1])
    next
      case 2
      then show ?thesis using IH by (auto simp: transitions_Cons_present [OF a 2])
    qed
  next
    assume a: "observe i (server s) = [Closed]"
    then have 1: "observe i (server (deliver s e)) = [Closed]"
      using st fp by auto
    then show "transitions i s (e # es) = [Closed]"
      using IH by (simp add: transitions_Cons_present [OF a 1])
  qed
qed

text \<open>Whatever the overlap, no status is followed by pending except pending itself.\<close>

lemma history_never_back_to_pending:
  "successively (\<lambda>a b. b = Pending \<longrightarrow> a = Pending) (status_history i s es)"
proof (induction es arbitrary: s)
  case Nil
  show ?case using observe_cases [of i "server s"] by auto
next
  case (Cons e es)
  note IH = Cons.IH [of "deliver s e"]
  show ?case
  proof (cases "observe i (server s)")
    case Nil
    then show ?thesis using IH by simp
  next
    case (Cons a as)
    then have a: "observe i (server s) = [a]" using observe_cases [of i "server s"] by auto
    then obtain b where b: "observe i (server (deliver s e)) = [b]" "b = Pending \<longrightarrow> a = Pending"
      using observe_deliver [of i s e] by auto
    obtain tl where "status_history i (deliver s e) es = b # tl"
      using history_head [OF b(1)] by blast
    then show ?thesis using IH a b(2) by simp
  qed
qed

lemma history_forward:
  assumes "assign_finds_pending i s es"
  shows "successively (\<lambda>a b. \<not> (a = Active \<and> b = Pending) \<and> (a = Closed \<longrightarrow> b = Closed))
     (status_history i s es)"
  using assms
proof (induction es arbitrary: s)
  case Nil
  show ?case using observe_cases [of i "server s"] by auto
next
  case (Cons e es)
  have fp: "assign_update_of i s e \<longrightarrow> observe i (server s) = [Pending]"
    and "assign_finds_pending i (deliver s e) es"
    using Cons.prems by simp_all
  note IH = Cons.IH [OF this(2)]
  show ?case
  proof (cases "observe i (server s)")
    case Nil
    then show ?thesis using IH by simp
  next
    case (Cons a as)
    then have a: "observe i (server s) = [a]" using observe_cases [of i "server s"] by auto
    then obtain b where b: "observe i (server (deliver s e)) = [b]"
      "\<not> (a = Active \<and> b = Pending) \<and> (a = Closed \<longrightarrow> b = Closed)"
      using observe_deliver [of i s e] fp by auto
    obtain tl where "status_history i (deliver s e) es = b # tl"
      using history_head [OF b(1)] by blast
    then show ?thesis using IH a b(2) by simp
  qed
qed

text \<open>
  C2, as the code has it. Take any run of arrivals and completed statements, requests
  overlapping as they may, that starts before conversation \<open>i\<close> exists. No status of
  its history is followed by pending except pending itself. If moreover every update
  of an assign finds the conversation still pending, as the check of that assign did,
  then the sequence of its status transitions is a prefix of pending, active, closed or
  of pending, closed (a pending conversation can be closed without ever being
  assigned), and no step of its history goes from active to pending or leaves closed.
\<close>

theorem status_transitions:
  assumes "select_conversation (store (server s)) i = None"
  shows "successively (\<lambda>a b. b = Pending \<longrightarrow> a = Pending) (status_history i s es)
       \<and> (assign_finds_pending i s es \<longrightarrow>
            (prefix (transitions i s es) [Pending, Active, Closed]
             \<or> prefix (transitions i s es) [Pending, Closed])
          \<and> successively (\<lambda>a b. \<not> (a = Active \<and> b = Pending) \<and> (a = Closed \<longrightarrow> b = Closed))
               (status_history i s es))"
proof (intro conjI impI)
  show "successively (\<lambda>a b. b = Pending \<longrightarrow> a = Pending) (status_history i s es)"
    by (rule history_never_back_to_pending)
next
  assume fp: "assign_finds_pending i s es"
  have "observe i (server s) = []" using assms by (simp add: observe_def)
  then have "transitions i s es \<in>
      {[], [Pending], [Pending, Active], [Pending, Closed], [Pending, Active, Closed]}"
    using transitions_from [OF fp] by simp
  then show "prefix (transitions i s es) [Pending, Active, Closed]
          \<or> prefix (transitions i s es) [Pending, Closed]"
    by auto
  show "successively (\<lambda>a b. \<not> (a = Active \<and> b = Pending) \<and> (a = Closed \<longrightarrow> b = Closed))
           (status_history i s es)"
    using fp by (rule history_forward)
qed

text \<open>Requests handled one at a time never race.\<close>

lemma start_not_assign_update: "snd (start w r) \<noteq> Await (AssignUpdate u j now)"
  by (cases r) simp_all

lemma resume_assign_update:
  assumes "snd (resume w t) = Await (AssignUpdate u j now)"
  shows "fst (resume w t) = w \<and> observe j w = [Pending]"
  using assms
  by (cases t) (auto simp: Let_def observe_def split: option.splits if_splits)

lemma one_at_a_time_finds_pending:
  assumes "one_at_a_time s es"
    and "\<exists>n. dom (inflight s) \<subseteq> {n}"
    and "\<forall>n u j now. inflight s n = Some (AssignUpdate u j now) \<longrightarrow>
           observe j (server s) = [Pending]"
  shows "assign_finds_pending i s es"
  using assms
proof (induction es arbitrary: s)
  case Nil
  show ?case by simp
next
  case (Cons e es)
  have here: "assign_update_of i s e \<longrightarrow> observe i (server s) = [Pending]"
    using Cons.prems(3)
    by (auto simp: assign_update_of_def split: event.splits option.splits task.splits)
  have one: "one_at_a_time (deliver s e) es" using Cons.prems(1) by simp
  have "(\<exists>n. dom (inflight (deliver s e)) \<subseteq> {n})
      \<and> (\<forall>n u j now. inflight (deliver s e) n = Some (AssignUpdate u j now) \<longrightarrow>
           observe j (server (deliver s e)) = [Pending])"
  proof (cases e)
    case (Arrive n r)
    then have empty: "dom (inflight s) = {}" using Cons.prems(1) by simp
    then have none: "inflight s = Map.empty" by simp
    have "dom (inflight (deliver s e)) \<subseteq> {n}"
      using Arrive none by (auto simp: settle_def split: outcome.splits if_splits)
    moreover have "inflight (deliver s e) m \<noteq> Some (AssignUpdate u j now)" for m u j now
      using Arrive none start_not_assign_update [of "server s" r u j now]
      by (auto simp: settle_def split: outcome.splits if_splits)
    ultimately show ?thesis by blast
  next
    case (Resume n)
    show ?thesis
    proof (cases "inflight s n")
      case None
      then show ?thesis using Resume Cons.prems(2,3) by simp
    next
      case (Some t)
      obtain m where m: "dom (inflight s) \<subseteq> {m}" using Cons.prems(2) by blast
      then have mn: "dom (inflight s) \<subseteq> {n}" using Some by auto
      have d: "deliver s e = settle n (resume (server s) t) s" using Resume Some by simp
      have dom': "dom (inflight (deliver s e)) \<subseteq> {n}"
        using mn unfolding d by (auto simp: settle_def split: outcome.splits if_splits)
      have "observe j (server (deliver s e)) = [Pending]"
        if h: "inflight (deliver s e) k = Some (AssignUpdate u j now)" for k u j now
      proof -
        have "k = n" using dom' h by auto
        then have "snd (resume (server s) t) = Await (AssignUpdate u j now)"
          using h unfolding d by (auto simp: settle_def split: outcome.splits)
        from resume_assign_update [OF this] show ?thesis
          unfolding d by (simp add: server_settle)
      qed
      then show ?thesis using dom' by blast
    qed
  qed
  then have "assign_finds_pending i (deliver s e) es"
    using Cons.IH [OF one] by blast
  then show ?case using here by simp
qed

lemma idle_one_at_a_time:
  "one_at_a_time (idle w) es \<Longrightarrow> assign_finds_pending i (idle w) es"
  by (rule one_at_a_time_finds_pending) (simp_all add: idle_def)

text \<open>Handled without interruption, a request does what its handler does in one piece.\<close>

lemma finish_assign:
  "finish 3 (start w (Assign u i now)) =
     Some (fst (assign w u i now), ConversationReply (snd (assign w u i now)))"
proof (cases "role u \<noteq> Attendant \<and> role u \<noteq> Admin")
  case True
  then show ?thesis by (simp add: assign_def)
next
  case False
  show ?thesis
  proof (cases "select_conversation (store w) i")
    case None
    then show ?thesis using False by (simp add: assign_def numeral_3_eq_3)
  next
    case (Some c)
    have s: "select_conversation
        (update_conversations
          (\<lambda>r. r\<lparr>attendantId := Some (user_id u), status := Active, updatedAt := now\<rparr>) i
          (store w)) i =
        Some (c\<lparr>attendantId := Some (user_id u), status := Active, updatedAt := now\<rparr>)"
      using Some by (rule select_update) simp
    show ?thesis
      using False Some s by (simp add: assign_def numeral_3_eq_3 Let_def)
  qed
qed

lemma finish_close:
  "finish 3 (start w (Close u i now)) =
     Some (fst (close w u i now), ConversationReply (snd (close w u i now)))"
proof (cases "select_conversation (store w) i")
  case None
  then show ?thesis by (simp add: close_def numeral_3_eq_3)
next
  case (Some c)
  have s: "select_conversation
      (update_conversations (\<lambda>r. r\<lparr>status := Closed, updatedAt := now\<rparr>) i (store w)) i =
      Some (c\<lparr>status := Closed, updatedAt := now\<rparr>)"
    using Some by (rule select_update) simp
  show ?thesis
    using Some s by (simp add: close_def numeral_3_eq_3 Let_def)
qed

lemma finish_send_message:
  "finish 4 (start w (SendMessage u body mid now)) =
     Some (fst (send_message w u body mid now), MessageReply (snd (send_message w u body mid now)))"
proof -
  have 4: "(4::nat) = Suc (Suc (Suc (Suc 0)))" by simp
  show ?thesis
    unfolding 4
    by (simp add: send_message_def Let_def split: option.splits)
qed

lemma finish_select_loop:
  assumes "\<forall>m<n. generateProtocol rnd (k + 13 * m) \<in> protocol ` set (conversations (store w))"
  shows "finish (n + fuel) (w, Await (CreateSelect u body rnd k cid pid mid now)) =
         finish fuel (w, Await (CreateSelect u body rnd (k + 13 * n) cid pid mid now))"
  using assms
proof (induction n arbitrary: k)
  case 0
  show ?case by simp
next
  case (Suc n)
  have "generateProtocol rnd (k + 13 * 0) \<in> protocol ` set (conversations (store w))"
    using Suc.prems by blast
  then have here: "filter (\<lambda>c. protocol c = generateProtocol rnd k) (conversations (store w)) \<noteq> []"
    by (auto simp: filter_empty_conv)
  have "\<forall>m<n. generateProtocol rnd (k + 13 + 13 * m) \<in> protocol ` set (conversations (store w))"
  proof (intro allI impI)
    fix m assume "m < n"
    then have "generateProtocol rnd (k + 13 * Suc m) \<in> protocol ` set (conversations (store w))"
      using Suc.prems by blast
    then show "generateProtocol rnd (k + 13 + 13 * m) \<in> protocol ` set (conversations (store w))"
      by (simp add: add.assoc)
  qed
  from Suc.IH [OF this] here show ?case by (simp add: Let_def add.assoc)
qed

lemma finish_create_rows:
  assumes "filter (\<lambda>c. protocol c = p) (conversations (store w)) = []"
    and "p = generateProtocol rnd k"
    and "role u = Client"
    and "unique_protocol (conversations (store w)) rnd 0 = Some p"
    and "create w u body rnd cid pid mid now = Some (w', r)"
  shows "finish 5 (w, Await (CreateSelect u body rnd k cid pid mid now)) =
         Some (w', ConversationReply r)"
proof -
  have 5: "(5::nat) = Suc (Suc (Suc (Suc (Suc 0))))" by simp
  show ?thesis
    using assms unfolding 5
    by (auto simp: create_def Let_def insert_initial_message_def
        split: option.splits if_splits)
qed

lemma finish_create:
  assumes "create w u body rnd cid pid mid now = Some (w', r)"
  shows "\<exists>fuel. finish fuel (start w (Create u body rnd cid pid mid now)) =
           Some (w', ConversationReply r)"
proof (cases "role u = Client")
  case False
  then show ?thesis using assms by (auto simp: create_def)
next
  case True
  then obtain p where p: "unique_protocol (conversations (store w)) rnd 0 = Some p"
    using assms by (auto simp: create_def split: option.splits)
  from unique_protocol_first_free [OF p] obtain n where
    n: "p = generateProtocol rnd (0 + 13 * n)" "p \<notin> protocol ` set (conversations (store w))"
    "\<forall>m<n. generateProtocol rnd (0 + 13 * m) \<in> protocol ` set (conversations (store w))"
    by blast
  have free: "filter (\<lambda>c. protocol c = p) (conversations (store w)) = []"
    using n(2) by (force simp: filter_empty_conv)
  have "finish (n + 5) (w, Await (CreateSelect u body rnd 0 cid pid mid now)) =
      finish 5 (w, Await (CreateSelect u body rnd (0 + 13 * n) cid pid mid now))"
    using n(3) by (rule finish_select_loop)
  also have "\<dots> = Some (w', ConversationReply r)"
    using free n(1) True p assms by (rule finish_create_rows)
  finally show ?thesis using True by auto
qed

text \<open>The runs of the deployment.\<close>

lemma zeros_draw: "generateProtocol zeros 0 = ''0000000000000''"
  by (simp add: generateProtocol_def zeros_def charAt_def chars_def upt_rec)

lemmas run_defs = settle_def observe_def select_conversation_def insert_conversation_def
  insert_protocol_def insert_message_def update_conversations_def triggerWebhook_def
  falsy_def idle_def greeting_def open_c1_def Let_def zeros_draw

lemma history_owner_closes:
  "status_history ''c1'' (idle empty_world) owner_closes =
     [Pending, Pending, Pending, Pending, Pending, Pending, Closed, Closed]"
  by (simp add: owner_closes_def run_defs deployment_defs)

lemma history_close_overtakes_assign:
  "status_history ''c1'' (idle empty_world) close_overtakes_assign =
     [Pending, Pending, Pending, Pending, Pending, Pending, Pending, Pending,
      Closed, Closed, Active, Active]"
  by (simp add: close_overtakes_assign_def run_defs deployment_defs)

lemma history_full_life:
  "status_history ''c1'' (idle empty_world) full_life =
     [Pending, Pending, Pending, Pending, Pending, Pending,
      Active, Active, Active, Active, Active, Active, Active, Active, Active,
      Closed, Closed]"
  by (simp add: full_life_def run_defs deployment_defs)

lemma full_life_one_at_a_time: "one_at_a_time (idle empty_world) full_life"
  by (simp add: full_life_def run_defs deployment_defs)


lemma full_life_finds_pending: "assign_finds_pending ''c1'' (idle empty_world) full_life"
  using full_life_one_at_a_time by (rule idle_one_at_a_time)

theorem status_transitions_counterexample:
  "transitions ''c1'' (idle empty_world) owner_closes = [Pending, Closed]
   \<and> \<not> prefix (transitions ''c1'' (idle empty_world) owner_closes) [Pending, Active, Closed]"
  by (simp add: transitions_def history_owner_closes)

text \<open>
  The overlap that the condition on assign excludes. Bob's assign has read \<open>c1\<close> as
  pending when Alice's close is handled; Bob's update then lands on the closed
  conversation and makes it active.
\<close>

lemma assign_after_close:
  "transitions ''c1'' (idle empty_world) close_overtakes_assign = [Pending, Closed, Active]
   \<and> \<not> assign_finds_pending ''c1'' (idle empty_world) close_overtakes_assign"
proof -
  have t: "transitions ''c1'' (idle empty_world) close_overtakes_assign =
      [Pending, Closed, Active]"
    by (simp add: transitions_def history_close_overtakes_assign)
  have s: "select_conversation (store (server (idle empty_world))) ''c1'' = None"
    by (simp add: idle_def select_conversation_def deployment_defs)
  have "\<not> assign_finds_pending ''c1'' (idle empty_world) close_overtakes_assign"
  proof
    assume "assign_finds_pending ''c1'' (idle empty_world) close_overtakes_assign"
    then have "transitions ''c1'' (idle empty_world) close_overtakes_assign \<in>
      {[], [Pending], [Pending, Active], [Pending, Closed], [Pending, Active, Closed]}"
      using transitions_from [of "''c1''" "idle empty_world" close_overtakes_assign] s
      by (simp add: observe_def)
    then show False using t by simp
  qed
  then show ?thesis using t by simp
qed

theorem status_transitions_witness:
  "select_conversation (store (server (idle empty_world))) ''c1'' = None
   \<and> one_at_a_time (idle empty_world) full_life
   \<and> assign_finds_pending ''c1'' (idle empty_world) full_life
   \<and> transitions ''c1'' (idle empty_world) full_life = [Pending, Active, Closed]
   \<and> prefix (transitions ''c1'' (idle empty_world) full_life) [Pending, Active, Closed]"
proof -
  have n: "select_conversation (store (server (idle empty_world))) ''c1'' = None"
    by (simp add: idle_def select_conversation_def deployment_defs)
  have t: "transitions ''c1'' (idle empty_world) full_life = [Pending, Active, Closed]"
    by (simp add: transitions_def history_full_life)
  have "\<not> prefix (transitions ''c1'' (idle empty_world) full_life) [Pending, Closed]"
    using t by simp
  then have "prefix (transitions ''c1'' (idle empty_world) full_life) [Pending, Active, Closed]"
    using status_transitions [OF n, of full_life] full_life_finds_pending by blast
  then show ?thesis using n t full_life_one_at_a_time full_life_finds_pending by simp
qed

end
